theory Spec2Isabelle
  imports Complex_Main
begin


section \<open>Python values used by play.py\<close>

text \<open>
  Python floats are modelled as \<^typ>\<open>real\<close> and Python integers as \<^typ>\<open>int\<close>
  (\<^typ>\<open>nat\<close> for lengths and for the value of a digit string). Strings are
  \<^typ>\<open>string\<close>, restricted to ASCII: the whitespace set, the digit class and the case
  folding below are the ASCII parts of Python's Unicode definitions. Exceptions are values of
  \<open>py_error\<close>; a function that can raise returns \<open>py_error + 'a\<close>.
\<close>

datatype py_error = ValueError | IndexError | ZeroDivisionError | SystemExit nat

subsection \<open>str.strip, str.split, the in operator\<close>

definition is_space :: "char \<Rightarrow> bool" where
  "is_space c = (c \<in> set [CHR 0x09, CHR 0x0A, CHR 0x0B, CHR 0x0C, CHR 0x0D,
                            CHR 0x1C, CHR 0x1D, CHR 0x1E, CHR 0x1F, CHR 0x20])"

definition strip_with :: "(char \<Rightarrow> bool) \<Rightarrow> string \<Rightarrow> string" where
  "strip_with p s = rev (dropWhile p (rev (dropWhile p s)))"

definition py_strip :: "string \<Rightarrow> string" where
  "py_strip s = strip_with is_space s"

definition py_strip_chars :: "string \<Rightarrow> string \<Rightarrow> string" where
  "py_strip_chars chars s = strip_with (\<lambda>c. c \<in> set chars) s"

text \<open>\<open>s.split(sep)\<close> for a separator of one character.\<close>

fun split_char :: "char \<Rightarrow> string \<Rightarrow> string list" where
  "split_char sep [] = [[]]"
| "split_char sep (c # cs) =
     (if c = sep then [] # split_char sep cs
      else (case split_char sep cs of
              w # ws \<Rightarrow> (c # w) # ws
            | [] \<Rightarrow> [[c]]))"

text \<open>\<open>s.split()\<close>: the maximal runs of non-whitespace characters.\<close>

fun split_ws_acc :: "string \<Rightarrow> string \<Rightarrow> string list" where
  "split_ws_acc cur [] = (if cur = [] then [] else [cur])"
| "split_ws_acc cur (c # cs) =
     (if is_space c then (if cur = [] then split_ws_acc [] cs else cur # split_ws_acc [] cs)
      else split_ws_acc (cur @ [c]) cs)"

definition py_split :: "string \<Rightarrow> string list" where
  "py_split s = split_ws_acc [] s"

subsection \<open>int(str) and the format specifier 02d\<close>

definition is_digit :: "char \<Rightarrow> bool" where
  "is_digit c = (c \<in> set ''0123456789'')"

definition digit_val :: "char \<Rightarrow> nat" where
  "digit_val c = of_char c - 48"

definition digit_char :: "nat \<Rightarrow> char" where
  "digit_char d = ''0123456789'' ! d"

text \<open>
  The digits of \<open>int(s)\<close> after the sign: a digit, then digits each optionally preceded by
  one underscore.
\<close>

fun int_tail :: "nat \<Rightarrow> string \<Rightarrow> py_error + nat" where
  "int_tail acc [] = Inr acc"
| "int_tail acc (c # cs) =
     (if c = CHR ''_'' then
        (case cs of
           [] \<Rightarrow> Inl ValueError
         | d # ds \<Rightarrow> if is_digit d then int_tail (10 * acc + digit_val d) ds else Inl ValueError)
      else if is_digit c then int_tail (10 * acc + digit_val c) cs
      else Inl ValueError)"

definition int_digits :: "string \<Rightarrow> py_error + nat" where
  "int_digits s =
     (case s of
        [] \<Rightarrow> Inl ValueError
      | c # cs \<Rightarrow> if is_digit c then int_tail (digit_val c) cs else Inl ValueError)"

definition py_int :: "string \<Rightarrow> py_error + int" where
  "py_int s =
     (case py_strip s of
        [] \<Rightarrow> Inl ValueError
      | c # cs \<Rightarrow>
          if c = CHR ''-'' then
            (case int_digits cs of Inl e \<Rightarrow> Inl e | Inr n \<Rightarrow> Inr (- int n))
          else if c = CHR ''+'' then
            (case int_digits cs of Inl e \<Rightarrow> Inl e | Inr n \<Rightarrow> Inr (int n))
          else
            (case int_digits (c # cs) of Inl e \<Rightarrow> Inl e | Inr n \<Rightarrow> Inr (int n)))"

text \<open>\<open>str(n)\<close> for a natural number.\<close>

fun str_nat :: "nat \<Rightarrow> string" where
  "str_nat n = (if n < 10 then [digit_char n] else str_nat (n div 10) @ [digit_char (n mod 10)])"

declare str_nat.simps [simp del]

text \<open>\<open>f"{n:02d}"\<close>: zero padding to width 2, the sign counted in the width.\<close>

definition fmt_02d :: "int \<Rightarrow> string" where
  "fmt_02d n =
     (if n < 0 then
        CHR ''-'' # replicate (1 - length (str_nat (nat (- n)))) CHR ''0'' @ str_nat (nat (- n))
      else replicate (2 - length (str_nat (nat n))) CHR ''0'' @ str_nat (nat n))"

subsection \<open>int(float), float floor division and modulo, round\<close>

definition py_trunc :: "real \<Rightarrow> int" where
  "py_trunc x = (if 0 \<le> x then \<lfloor>x\<rfloor> else \<lceil>x\<rceil>)"

definition py_floordiv :: "real \<Rightarrow> real \<Rightarrow> real" where
  "py_floordiv x y = of_int \<lfloor>x / y\<rfloor>"

definition py_mod :: "real \<Rightarrow> real \<Rightarrow> real" where
  "py_mod x y = x - y * of_int \<lfloor>x / y\<rfloor>"

text \<open>\<open>round(x)\<close> with one argument: to the nearest integer, a tie to the even one.\<close>

definition py_round :: "real \<Rightarrow> int" where
  "py_round x =
     (let f = \<lfloor>x\<rfloor>; d = x - of_int f in
      if d < 1 / 2 then f
      else if 1 / 2 < d then f + 1
      else if even f then f else f + 1)"

section \<open>Time codec\<close>

text \<open>
  \<open>lrc_time_to_seconds\<close> (lines 163-183). The branch without a colon calls \<open>float(t)\<close>;
  the parser of float literals is the parameter \<open>py_float\<close>.
\<close>

definition lrc_time_to_seconds :: "(string \<Rightarrow> py_error + real) \<Rightarrow> string \<Rightarrow> py_error + real" where
  "lrc_time_to_seconds py_float t0 =
     (let t = py_strip_chars ''[]'' (py_strip t0) in
      if CHR '':'' \<in> set t then
        (case split_char CHR '':'' t of
           p0 # seconds_part # _ \<Rightarrow>
             (case py_int p0 of
                Inl e \<Rightarrow> Inl e
              | Inr minutes \<Rightarrow>
                  if CHR ''.'' \<in> set seconds_part then
                    (case split_char CHR ''.'' seconds_part of
                       [seconds_s, frac_s] \<Rightarrow>
                         (case py_int seconds_s of
                            Inl e \<Rightarrow> Inl e
                          | Inr seconds \<Rightarrow>
                              (case py_int frac_s of
                                 Inl e \<Rightarrow> Inl e
                               | Inr f \<Rightarrow>
                                   if length frac_s = 2
                                   then Inr (of_int (minutes * 60 + seconds) + of_int f / 100)
                                   else Inr (of_int (minutes * 60 + seconds) + of_int f / 1000)))
                     | _ \<Rightarrow> Inl ValueError)
                  else
                    (case py_int seconds_part of
                       Inl e \<Rightarrow> Inl e
                     | Inr seconds \<Rightarrow> Inr (of_int (minutes * 60 + seconds))))
         | _ \<Rightarrow> Inl IndexError)
      else py_float t)"

text \<open>\<open>seconds_to_lrc_time\<close> (lines 186-203).\<close>

definition seconds_to_lrc_time :: "real \<Rightarrow> string" where
  "seconds_to_lrc_time sec0 =
     (let sec = (if sec0 < 0 then 0 else sec0);
          minutes = py_trunc (py_floordiv sec 60);
          seconds = py_trunc (py_mod sec 60);
          centiseconds = py_round ((sec - of_int (py_trunc sec)) * 100);
          rollover = (centiseconds = 100);
          seconds1 = (if rollover then seconds + 1 else seconds);
          centiseconds1 = (if rollover then 0 else centiseconds);
          carry = (rollover \<and> seconds1 = 60);
          minutes2 = (if carry then minutes + 1 else minutes);
          seconds2 = (if carry then 0 else seconds1)
      in fmt_02d minutes2 @ '':'' @ fmt_02d seconds2 @ ''.'' @ fmt_02d centiseconds1)"

text \<open>The value of a digit string read from the left, used to state what \<open>int_tail\<close> returns.\<close>

definition digits_value :: "nat \<Rightarrow> string \<Rightarrow> nat" where
  "digits_value acc ds = foldl (\<lambda>a c. 10 * a + digit_val c) acc ds"

section \<open>Lyric parser\<close>

text \<open>An entry of the parsed list: the dictionary with the keys start, end and text.\<close>

record entry =
  entry_start :: real
  entry_end :: real
  entry_text :: string

subsection \<open>The regular expressions of parse_lrc\<close>

text \<open>
  \<open>\d{lo,hi}\<close> followed by a literal character that is not a digit: the run of digits at
  the head of the string has between \<open>lo\<close> and \<open>hi\<close> characters and the literal follows
  it. The result is the group and the rest of the string.
\<close>

definition match_group :: "nat \<Rightarrow> nat \<Rightarrow> char \<Rightarrow> string \<Rightarrow> (string \<times> string) option" where
  "match_group lo hi lit s =
     (let ds = takeWhile is_digit s; r = dropWhile is_digit s in
      case r of
        [] \<Rightarrow> None
      | c # r' \<Rightarrow> if lo \<le> length ds \<and> length ds \<le> hi \<and> c = lit then Some (ds, r') else None)"

text \<open>
  \<open>time_pattern = \[(\d{1,2}):(\d{2})\.(\d{2,3})\]\<close> (line 279) matched at the head of a
  string: the three groups and the rest of the string after the match.
\<close>

definition match_time :: "string \<Rightarrow> ((string \<times> string \<times> string) \<times> string) option" where
  "match_time s =
     (case s of
        [] \<Rightarrow> None
      | c # r0 \<Rightarrow>
          if c \<noteq> CHR ''['' then None
          else
            (case match_group 1 2 CHR '':'' r0 of
               None \<Rightarrow> None
             | Some (m, r1) \<Rightarrow>
                 (case match_group 2 2 CHR ''.'' r1 of
                    None \<Rightarrow> None
                  | Some (sec, r2) \<Rightarrow>
                      (case match_group 2 3 CHR '']'' r2 of
                         None \<Rightarrow> None
                       | Some (ms, r3) \<Rightarrow> Some ((m, sec, ms), r3)))))"

text \<open>
  \<open>time_pattern.findall(line)\<close>: the groups of the matches found from left to right, the
  search resuming after each match.
\<close>

function findall_time :: "string \<Rightarrow> (string \<times> string \<times> string) list" where
  "findall_time [] = []"
| "findall_time (c # cs) =
     (case match_time (c # cs) of
        Some (g, rest) \<Rightarrow> g # findall_time rest
      | None \<Rightarrow> findall_time cs)"
  by pat_completeness auto
termination
proof (relation "measure length")
  show "wf (measure length)" by simp
next
  fix c :: char and cs :: string and x2 :: "(string \<times> string \<times> string) \<times> string"
    and g :: "string \<times> string \<times> string" and rest :: string
  assume m: "match_time (c # cs) = Some x2" and x2: "(g, rest) = x2"
  have grp: "length r \<le> length s" if "match_group lo hi lit s = Some (d, r)"
    for lo hi lit s d r
  proof -
    have "length (dropWhile is_digit s) \<le> length s" by (rule length_dropWhile_le)
    with that show ?thesis
      by (auto simp: match_group_def Let_def split: list.splits if_splits)
  qed
  from m x2 obtain ma r1 sec r2 ms where
    g1: "match_group 1 2 CHR '':'' cs = Some (ma, r1)" and
    g2: "match_group 2 2 CHR ''.'' r1 = Some (sec, r2)" and
    g3: "match_group 2 3 CHR '']'' r2 = Some (ms, rest)"
    by (auto simp: match_time_def split: if_splits option.splits)
  from grp [OF g1] grp [OF g2] grp [OF g3] have "length rest \<le> length cs"
    by linarith
  then show "(rest, c # cs) \<in> measure length" by simp
next
  fix c :: char and cs :: string
  show "(cs, c # cs) \<in> measure length" by simp
qed

text \<open>\<open>time_pattern.sub('', line)\<close>: the string with every match removed.\<close>

function sub_time :: "string \<Rightarrow> string" where
  "sub_time [] = []"
| "sub_time (c # cs) =
     (case match_time (c # cs) of
        Some (g, rest) \<Rightarrow> sub_time rest
      | None \<Rightarrow> c # sub_time cs)"
  by pat_completeness auto
termination
proof (relation "measure length")
  show "wf (measure length)" by simp
next
  fix c :: char and cs :: string and x2 :: "(string \<times> string \<times> string) \<times> string"
    and g :: "string \<times> string \<times> string" and rest :: string
  assume m: "match_time (c # cs) = Some x2" and x2: "(g, rest) = x2"
  have grp: "length r \<le> length s" if "match_group lo hi lit s = Some (d, r)"
    for lo hi lit s d r
  proof -
    have "length (dropWhile is_digit s) \<le> length s" by (rule length_dropWhile_le)
    with that show ?thesis
      by (auto simp: match_group_def Let_def split: list.splits if_splits)
  qed
  from m x2 obtain ma r1 sec r2 ms where
    g1: "match_group 1 2 CHR '':'' cs = Some (ma, r1)" and
    g2: "match_group 2 2 CHR ''.'' r1 = Some (sec, r2)" and
    g3: "match_group 2 3 CHR '']'' r2 = Some (ms, rest)"
    by (auto simp: match_time_def split: if_splits option.splits)
  from grp [OF g1] grp [OF g2] grp [OF g3] have "length rest \<le> length cs"
    by linarith
  then show "(rest, c # cs) \<in> measure length" by simp
next
  fix c :: char and cs :: string
  show "(cs, c # cs) \<in> measure length" by simp
qed

text \<open>
  \<open>meta_pattern = ^\[(ti|ar|al|by|offset|re|title|artist|album):\<close> with IGNORECASE
  (line 280), searched in a stripped line: the line starts with a bracket, one of the tags
  in any case, and a colon.
\<close>

definition to_lower :: "char \<Rightarrow> char" where
  "to_lower c =
     (case map_of (zip ''ABCDEFGHIJKLMNOPQRSTUVWXYZ'' ''abcdefghijklmnopqrstuvwxyz'') c of
        Some l \<Rightarrow> l
      | None \<Rightarrow> c)"

definition meta_tags :: "string list" where
  "meta_tags = [''ti'', ''ar'', ''al'', ''by'', ''offset'', ''re'', ''title'', ''artist'', ''album'']"

definition is_meta :: "string \<Rightarrow> bool" where
  "is_meta line =
     list_ex (\<lambda>tag. take (length tag + 2) (map to_lower line) = ''['' @ tag @ '':'') meta_tags"

subsection \<open>str.splitlines\<close>

definition is_linebreak :: "char \<Rightarrow> bool" where
  "is_linebreak c = (c \<in> set [CHR 0x0A, CHR 0x0B, CHR 0x0C, CHR 0x0D, CHR 0x1C, CHR 0x1D, CHR 0x1E])"

fun splitlines_acc :: "string \<Rightarrow> string \<Rightarrow> string list" where
  "splitlines_acc cur [] = (if cur = [] then [] else [cur])"
| "splitlines_acc cur (c # cs) =
     (if c = CHR 0x0D then
        (case cs of
           [] \<Rightarrow> [cur]
         | d # ds \<Rightarrow> if d = CHR 0x0A then cur # splitlines_acc [] ds else cur # splitlines_acc [] cs)
      else if is_linebreak c then cur # splitlines_acc [] cs
      else splitlines_acc (cur @ [c]) cs)"

definition py_splitlines :: "string \<Rightarrow> string list" where
  "py_splitlines s = splitlines_acc [] s"

subsection \<open>parse_lrc (lines 257-330)\<close>

text \<open>
  The entry built for one timestamp (lines 302-313). The groups are digit strings, on which
  \<open>int\<close> is \<open>digits_value 0\<close> (lemma \<open>match_time_groups_int\<close>).
\<close>

definition make_entry :: "string \<Rightarrow> string \<times> string \<times> string \<Rightarrow> entry" where
  "make_entry text g =
     (case g of (m, s, ms) \<Rightarrow>
        let minutes = digits_value 0 m;
            seconds = digits_value 0 s;
            fraction = (if length ms = 2 then real (digits_value 0 ms) / 100
                        else real (digits_value 0 ms) / 1000);
            start_time = real (minutes * 60 + seconds) + fraction
        in \<lparr>entry_start = start_time, entry_end = start_time + 3, entry_text = text\<rparr>)"

text \<open>The body of the loop over the lines (lines 283-314), from the list so far to the new list.\<close>

definition parse_line :: "entry list \<Rightarrow> string \<Rightarrow> entry list" where
  "parse_line lyrics line0 =
     (let line = py_strip line0 in
      if line = [] then lyrics
      else if is_meta line then lyrics
      else
        let timestamps = findall_time line;
            text = py_strip (sub_time line)
        in if timestamps = [] then
             (if lyrics \<noteq> [] \<and> text \<noteq> [] then
                butlast lyrics @
                  [(last lyrics)\<lparr>entry_text := entry_text (last lyrics) @ [CHR 0x0A] @ text\<rparr>]
              else lyrics)
           else lyrics @ map (make_entry text) timestamps)"

text \<open>
  Lines 320-321: every entry but the last takes the start of its successor as its end. The
  starts are not changed by the loop, so the entries can be updated from the left.
\<close>

fun update_ends :: "entry list \<Rightarrow> entry list" where
  "update_ends (a # b # rest) = a\<lparr>entry_end := entry_start b\<rparr> # update_ends (b # rest)"
| "update_ends lyrics = lyrics"

text \<open>Lines 324-328: the estimate for the last entry, under its guard.\<close>

definition estimate_last :: "entry list \<Rightarrow> entry list" where
  "estimate_last lyrics =
     (if lyrics = [] then lyrics
      else
        let l = last lyrics in
        if entry_end l \<le> entry_start l then
          butlast lyrics @
            [l\<lparr>entry_end := entry_start l + max 2 (real (length (entry_text l)) * (1 / 10))\<rparr>]
        else lyrics)"

definition parse_lrc_text :: "string \<Rightarrow> entry list" where
  "parse_lrc_text raw =
     (let lines = py_splitlines (py_strip raw);
          lyrics = foldl parse_line [] lines
      in estimate_last (update_ends (sort_key entry_start lyrics)))"

text \<open>
  \<open>parse_lrc\<close>: the content read from the file is \<open>Some raw\<close>; \<open>None\<close> is a file that
  cannot be read, where the function prints an error and calls \<open>sys.exit(1)\<close>.
\<close>

definition parse_lrc :: "string option \<Rightarrow> py_error + entry list" where
  "parse_lrc content =
     (case content of
        None \<Rightarrow> Inl (SystemExit 1)
      | Some raw \<Rightarrow> Inr (parse_lrc_text raw))"

text \<open>
  Two notions used to state the properties of the parser: an entry still has the end given
  at its creation (line 311), and the list of entries after the sort of line 317.
\<close>

definition placeholder_end :: "entry \<Rightarrow> bool" where
  "placeholder_end e = (entry_end e = entry_start e + 3)"

definition sorted_lyrics :: "string \<Rightarrow> entry list" where
  "sorted_lyrics raw = sort_key entry_start (foldl parse_line [] (py_splitlines (py_strip raw)))"


section \<open>Word-timing exporter\<close>

text \<open>The dictionaries built by \<open>export_json\<close> (lines 514-546) and dumped to the JSON file.\<close>

record word_timing =
  wt_word :: string
  wt_start :: real
  wt_end :: real
  wt_start_time :: string
  wt_end_time :: string

record caption_out =
  cap_start :: real
  cap_end :: real
  cap_start_time :: string
  cap_end_time :: string
  cap_text :: string
  cap_words :: "word_timing list"

record export_result =
  res_words :: "word_timing list"
  res_captions :: "caption_out list"

text \<open>Lines 520-534: the list \<open>word_timings\<close> of one caption.\<close>

definition word_timings :: "entry \<Rightarrow> word_timing list" where
  "word_timings caption =
     (let words = py_split (entry_text caption);
          duration = max (1 / 10000) (entry_end caption - entry_start caption);
          step = (if words \<noteq> [] then duration / real (length words) else duration)
      in map (\<lambda>(idx, word).
                let word_start = entry_start caption + real idx * step;
                    word_end = word_start + step
                in \<lparr>wt_word = word, wt_start = word_start, wt_end = word_end,
                    wt_start_time = seconds_to_lrc_time word_start,
                    wt_end_time = seconds_to_lrc_time word_end\<rparr>)
             (enumerate 0 words))"

text \<open>Lines 536-543: the caption appended to \<open>result["captions"]\<close>.\<close>

definition export_caption :: "entry \<Rightarrow> caption_out" where
  "export_caption caption =
     \<lparr>cap_start = entry_start caption, cap_end = entry_end caption,
      cap_start_time = seconds_to_lrc_time (entry_start caption),
      cap_end_time = seconds_to_lrc_time (entry_end caption),
      cap_text = entry_text caption,
      cap_words = word_timings caption\<rparr>"

text \<open>The object \<open>result\<close> that \<open>export_json\<close> writes; the file and the message are not modelled.\<close>

definition export_json :: "entry list \<Rightarrow> export_result" where
  "export_json lyrics =
     \<lparr>res_words = concat (map word_timings lyrics),
      res_captions = map export_caption lyrics\<rparr>"

section \<open>Animation delay\<close>

text \<open>
  \<open>get_animation_delay\<close> (lines 394-421). The value of \<open>random.random()\<close>, drawn once in
  the branches bounce and glitch, is the argument \<open>r\<close>; \<open>math.sin\<close> is the real sine.
\<close>

definition get_animation_delay :: "real \<Rightarrow> string \<Rightarrow> real \<Rightarrow> int \<Rightarrow> real" where
  "get_animation_delay r effect base_speed char_index =
     (if effect = ''bounce'' then base_speed * (8 / 10 + r * (4 / 10))
      else if effect = ''wave'' then
        base_speed * (1 + (3 / 10) * sin (of_int char_index * (5 / 10)))
      else if effect = ''swing'' then
        base_speed * (1 + (2 / 10) * sin (of_int char_index * (3 / 10)))
      else if effect \<in> set [''shake'', ''heavy_shake''] then
        (if char_index mod 3 = 0 then base_speed * (5 / 10) else base_speed)
      else if effect = ''glitch'' then base_speed * (5 / 10 + r * 1)
      else if effect = ''vibrate'' then
        base_speed * (1 + (15 / 100) * sin (of_int char_index * (7 / 10)))
      else if effect = ''salsa'' then
        base_speed * (1 + (25 / 100) * sin (of_int char_index * (4 / 10)))
      else if effect = ''reggae_wave'' then
        base_speed * (1 + (2 / 10) * sin (of_int char_index * (35 / 100) + 5 / 10))
      else base_speed)"

section \<open>Configuration\<close>

text \<open>
  The entries of \<open>config["genres"]\<close> and the keys of the configuration that the modelled
  functions read. The genres are kept as the list of the items of the dictionary, in its
  order.
\<close>

record genre_config =
  genre_color :: string
  genre_speed :: real
  genre_effect :: string
  genre_description :: string

record config =
  cfg_wrap_width :: int
  cfg_margin_between_lines :: real
  cfg_block_margin :: real
  cfg_lrc_start_minute :: real
  cfg_lrc_start_second :: real
  cfg_show_time_display :: bool
  cfg_default_genre :: string
  cfg_genres :: "(string \<times> genre_config) list"

definition YELLOW :: string where "YELLOW = CHR 0x1B # ''[93m''"
definition RED :: string where "RED = CHR 0x1B # ''[91m''"
definition GRAY :: string where "GRAY = CHR 0x1B # ''[90m''"
definition DIM :: string where "DIM = CHR 0x1B # ''[2m''"
definition RESET :: string where "RESET = CHR 0x1B # ''[0m''"

section \<open>Schedule printer\<close>

text \<open>\<open>format_time_display\<close> (lines 549-556).\<close>

definition format_time_display :: "real \<Rightarrow> config \<Rightarrow> string" where
  "format_time_display seconds config =
     (let start_offset = cfg_lrc_start_minute config * 60 + cfg_lrc_start_second config;
          total_seconds = seconds + start_offset;
          minutes = py_trunc (py_floordiv total_seconds 60);
          secs = py_trunc (py_mod total_seconds 60)
      in fmt_02d minutes @ '':'' @ fmt_02d secs)"

text \<open>
  Lines 569 and 571 of \<open>print_schedule\<close>: \<open>adjusted_start\<close> for one entry. The division
  raises ZeroDivisionError for a multiplier of 0.
\<close>

definition adjusted_start :: "real \<Rightarrow> real \<Rightarrow> real \<Rightarrow> real \<Rightarrow> entry \<Rightarrow> py_error + real" where
  "adjusted_start first_time baseline offset speed_multiplier line =
     (if speed_multiplier = 0 then Inl ZeroDivisionError
      else
        let relative_start = (entry_start line - first_time) / speed_multiplier
        in Inr (baseline + relative_start + offset))"

text \<open>Lines 570 and 572: \<open>adjusted_end\<close>, computed and not printed.\<close>

definition adjusted_end :: "real \<Rightarrow> real \<Rightarrow> real \<Rightarrow> real \<Rightarrow> entry \<Rightarrow> py_error + real" where
  "adjusted_end first_time baseline offset speed_multiplier line =
     (if speed_multiplier = 0 then Inl ZeroDivisionError
      else
        let relative_end = (entry_end line - first_time) / speed_multiplier
        in Inr (baseline + relative_end + offset))"

text \<open>The strings printed for one entry (lines 573-577), from its adjusted start.\<close>

definition schedule_entry_lines :: "config \<Rightarrow> real \<Rightarrow> entry \<Rightarrow> string list" where
  "schedule_entry_lines config a line =
     (let time_display = format_time_display a config in
      [''['' @ seconds_to_lrc_time a @ ''] ('' @ time_display @ '')'']
      @ map (\<lambda>text_line. ''  '' @ text_line) (split_char CHR 0x0A (entry_text line))
      @ [[]])"

text \<open>
  The loop of lines 568-577: the printed strings, or the exception of the first division.
\<close>

fun print_schedule_loop ::
  "config \<Rightarrow> real \<Rightarrow> real \<Rightarrow> real \<Rightarrow> real \<Rightarrow> entry list \<Rightarrow> py_error + string list" where
  "print_schedule_loop config first_time baseline offset speed_multiplier [] = Inr []"
| "print_schedule_loop config first_time baseline offset speed_multiplier (line # rest) =
     (case adjusted_start first_time baseline offset speed_multiplier line of
        Inl e \<Rightarrow> Inl e
      | Inr a \<Rightarrow>
          (case adjusted_end first_time baseline offset speed_multiplier line of
             Inl e \<Rightarrow> Inl e
           | Inr b \<Rightarrow>
               (case print_schedule_loop config first_time baseline offset speed_multiplier rest of
                  Inl e \<Rightarrow> Inl e
                | Inr out \<Rightarrow> Inr (schedule_entry_lines config a line @ out))))"

text \<open>
  \<open>print_schedule\<close> (lines 559-577): the strings given to \<open>print\<close>, in order; when the
  loop raises, the exception alone. \<open>float_str\<close> is the conversion of a float to a string
  in the f-string of line 567.
\<close>

definition print_schedule ::
  "(real \<Rightarrow> string) \<Rightarrow> entry list \<Rightarrow> config \<Rightarrow> real \<Rightarrow> real option \<Rightarrow> real
     \<Rightarrow> py_error + string list" where
  "print_schedule float_str lyrics config offset start_time speed_multiplier =
     (case lyrics of
        [] \<Rightarrow> Inr [RED @ ''[ERROR] LRC kosong atau format salah.'' @ RESET]
      | first # _ \<Rightarrow>
          let first_time = entry_start first;
              baseline = (case start_time of Some t \<Rightarrow> t | None \<Rightarrow> 0);
              header = [[CHR 0x0A] @ YELLOW @ ''=== SCHEDULE LIRIK ==='' @ RESET @ [CHR 0x0A]]
                @ (if speed_multiplier \<noteq> 1
                   then [YELLOW @ ''Speed multiplier: '' @ float_str speed_multiplier @ ''x''
                         @ RESET @ [CHR 0x0A]]
                   else [])
          in case print_schedule_loop config first_time baseline offset speed_multiplier lyrics of
               Inl e \<Rightarrow> Inl e
             | Inr out \<Rightarrow> Inr (header @ out))"

text \<open>
  The adjusted starts that \<open>print_schedule\<close> computes for the entries of \<open>lyrics\<close>, in
  order: the values formatted in the first string of each entry.
\<close>

fun sum_list_all :: "(py_error + 'a) list \<Rightarrow> py_error + 'a list" where
  "sum_list_all [] = Inr []"
| "sum_list_all (x # xs) =
     (case x of
        Inl e \<Rightarrow> Inl e
      | Inr a \<Rightarrow> (case sum_list_all xs of Inl e \<Rightarrow> Inl e | Inr as \<Rightarrow> Inr (a # as)))"

definition print_schedule_starts ::
  "entry list \<Rightarrow> real \<Rightarrow> real option \<Rightarrow> real \<Rightarrow> py_error + real list" where
  "print_schedule_starts lyrics offset start_time speed_multiplier =
     (case lyrics of
        [] \<Rightarrow> Inr []
      | first # _ \<Rightarrow>
          let first_time = entry_start first;
              baseline = (case start_time of Some t \<Rightarrow> t | None \<Rightarrow> 0)
          in sum_list_all (map (adjusted_start first_time baseline offset speed_multiplier) lyrics))"

section \<open>Text wrapper\<close>

text \<open>The loop over the words of a long line (lines 341-354), \<open>current_line\<close> as an argument.\<close>

fun wrap_words :: "int \<Rightarrow> string \<Rightarrow> string list \<Rightarrow> string list" where
  "wrap_words width current_line [] = (if current_line \<noteq> [] then [current_line] else [])"
| "wrap_words width current_line (word # rest) =
     (let candidate = (if current_line \<noteq> [] then current_line @ '' '' @ word else word) in
      if int (length candidate) \<le> width then wrap_words width candidate rest
      else (if current_line \<noteq> [] then [current_line] else []) @ wrap_words width word rest)"

definition wrap_text :: "string \<Rightarrow> int \<Rightarrow> string list" where
  "wrap_text text width =
     concat (map (\<lambda>line. if int (length line) \<le> width then [line]
                          else wrap_words width [] (py_split line))
                 (split_char CHR 0x0A text))"

section \<open>Realtime playback\<close>

text \<open>
  What \<open>play_realtime\<close> does, as the list of its effects: a string printed, a call of
  \<open>time.sleep\<close>, and a call \<open>animate_text(text, color, speed, effect)\<close>.
\<close>

datatype event =
  Print string
| Sleep real
| Animate string string real string

text \<open>
  The matches of \<open>\([^)]*\)\<close> in a string (line 620), as the spans (start, end):
  an opening parenthesis and the first closing parenthesis after it. \<open>pos\<close> is the index of
  the head of the string in the whole line.
\<close>

fun find_index_char :: "char \<Rightarrow> string \<Rightarrow> nat option" where
  "find_index_char x [] = None"
| "find_index_char x (c # cs) =
     (if c = x then Some 0 else map_option Suc (find_index_char x cs))"

function paren_spans :: "nat \<Rightarrow> string \<Rightarrow> (nat \<times> nat) list" where
  "paren_spans pos [] = []"
| "paren_spans pos (c # cs) =
     (if c = CHR ''('' then
        (case find_index_char CHR '')'' cs of
           None \<Rightarrow> paren_spans (pos + 1) cs
         | Some k \<Rightarrow> (pos, pos + k + 2) # paren_spans (pos + k + 2) (drop (k + 1) cs))
      else paren_spans (pos + 1) cs)"
  by pat_completeness auto
termination
  by (relation "measure (\<lambda>(pos, s). length s)") auto

text \<open>\<open>s[a:b]\<close> for indices within the string.\<close>

definition slice :: "string \<Rightarrow> nat \<Rightarrow> nat \<Rightarrow> string" where
  "slice s a b = take (b - a) (drop a s)"

text \<open>
  The loop over the matches (lines 620-626) with \<open>last_idx\<close> as an argument, followed by
  lines 627-630; \<open>has_parenthetical\<close> is true as soon as the loop ran once.
\<close>

fun paren_loop ::
  "string \<Rightarrow> string \<Rightarrow> string \<Rightarrow> real \<Rightarrow> string \<Rightarrow> nat \<Rightarrow> (nat \<times> nat) list \<Rightarrow> event list" where
  "paren_loop wrapped_line color dim_color current_speed effect last_idx [] =
     (if last_idx < length wrapped_line
      then [Animate (drop last_idx wrapped_line) color current_speed effect]
      else [])"
| "paren_loop wrapped_line color dim_color current_speed effect last_idx ((s, e) # spans) =
     (if s > last_idx
      then [Animate (slice wrapped_line last_idx s) color current_speed effect]
      else [])
     @ [Animate (slice wrapped_line s e) dim_color current_speed effect]
     @ paren_loop wrapped_line color dim_color current_speed effect e spans"

text \<open>
  The body of the loop over the wrapped lines (lines 608-632). \<open>now\<close> is the value that
  \<open>time.monotonic()\<close> returns in line 609.
\<close>

definition play_wrapped_line ::
  "string \<Rightarrow> real \<Rightarrow> string \<Rightarrow> real \<Rightarrow> real \<Rightarrow> real \<Rightarrow> real \<Rightarrow> string \<Rightarrow> event list" where
  "play_wrapped_line color base_speed effect margin_between_lines playback_start absolute_start
       now wrapped_line =
     (let current_drift = (now - playback_start) - absolute_start;
          current_speed =
            (if current_drift > 0 then
               let catchup = min 3 (1 + current_drift * 2)
               in max (base_speed / catchup) (1 / 1000)
             else base_speed);
          trimmed_line = py_strip wrapped_line;
          dim_color = DIM @ color
      in (if take 1 trimmed_line = ''-'' then
            [Animate wrapped_line dim_color current_speed effect]
          else
            (case paren_spans 0 wrapped_line of
               [] \<Rightarrow> [Animate wrapped_line color current_speed effect]
             | spans \<Rightarrow> paren_loop wrapped_line color dim_color current_speed effect 0 spans))
         @ [Print [], Sleep margin_between_lines])"

text \<open>Lines 595-596 of \<open>play_realtime\<close>: \<open>absolute_start\<close> for one entry.\<close>

definition absolute_start :: "real \<Rightarrow> real \<Rightarrow> real \<Rightarrow> real \<Rightarrow> entry \<Rightarrow> py_error + real" where
  "absolute_start first_time baseline offset speed_multiplier line =
     (if speed_multiplier = 0 then Inl ZeroDivisionError
      else
        let relative_start = (entry_start line - first_time) / speed_multiplier
        in Inr (baseline + relative_start + offset))"

text \<open>
  The wrapped lines of an entry in the order of the two nested loops (lines 604-607), and
  their events; wrapped line number \<open>j\<close> reads the clock at call \<open>k + j\<close>.
\<close>

definition entry_wrapped_lines :: "int \<Rightarrow> entry \<Rightarrow> string list" where
  "entry_wrapped_lines wrap_w line =
     concat (map (\<lambda>text_line. wrap_text text_line wrap_w) (split_char CHR 0x0A (entry_text line)))"

text \<open>
  The loop over the entries (lines 594-644). \<open>clock k\<close> is the value returned by call
  number \<open>k\<close> of \<open>time.monotonic()\<close>, call 0 being the one of line 593; \<open>k\<close> is the
  number of the next call.
\<close>

fun play_entries ::
  "(nat \<Rightarrow> real) \<Rightarrow> config \<Rightarrow> string \<Rightarrow> real \<Rightarrow> string \<Rightarrow> int \<Rightarrow> real \<Rightarrow> real \<Rightarrow> real \<Rightarrow> real
     \<Rightarrow> nat \<Rightarrow> entry list \<Rightarrow> py_error + event list" where
  "play_entries clock config color base_speed effect wrap_w first_time baseline offset
       speed_multiplier k [] = Inr []"
| "play_entries clock config color base_speed effect wrap_w first_time baseline offset
       speed_multiplier k (line # rest) =
     (case absolute_start first_time baseline offset speed_multiplier line of
        Inl e \<Rightarrow> Inl e
      | Inr a \<Rightarrow>
          let playback_start = clock 0;
              elapsed = clock k - playback_start;
              wait_time = a - elapsed;
              wait = (if wait_time > 0 then [Sleep wait_time] else []);
              display = (if cfg_show_time_display config
                         then [Print (GRAY @ ''['' @ format_time_display a config @ '']'' @ RESET)]
                         else []);
              wrapped = entry_wrapped_lines wrap_w line;
              body = concat (map (\<lambda>(j, wrapped_line).
                         play_wrapped_line color base_speed effect (cfg_margin_between_lines config)
                           playback_start a (clock (k + 1 + j)) wrapped_line)
                       (enumerate 0 wrapped));
              k1 = k + 1 + length wrapped
          in (case rest of
                [] \<Rightarrow>
                  Inr (wait @ display @ body @ [Print []]
                       @ (if cfg_block_margin config > 0 then [Sleep (cfg_block_margin config)] else []))
              | next_line # _ \<Rightarrow>
                  (case absolute_start first_time baseline offset speed_multiplier next_line of
                     Inl e \<Rightarrow> Inl e
                   | Inr next_absolute_start \<Rightarrow>
                       let elapsed1 = clock k1 - playback_start;
                           remaining = next_absolute_start - elapsed1;
                           extra_sleep = min (cfg_block_margin config) (max 0 remaining);
                           pause = (if extra_sleep > 0 then [Sleep extra_sleep] else [])
                       in (case play_entries clock config color base_speed effect wrap_w first_time
                                  baseline offset speed_multiplier (k1 + 1) rest of
                             Inl e \<Rightarrow> Inl e
                           | Inr evs \<Rightarrow> Inr (wait @ display @ body @ [Print []] @ pause @ evs)))))"

text \<open>\<open>play_realtime\<close> (lines 580-644): its effects in order, or the exception of line 585.\<close>

definition play_realtime ::
  "(nat \<Rightarrow> real) \<Rightarrow> entry list \<Rightarrow> genre_config \<Rightarrow> config \<Rightarrow> real \<Rightarrow> real option \<Rightarrow> int option \<Rightarrow> real
     \<Rightarrow> py_error + event list" where
  "play_realtime clock lyrics genre config offset start_time wrap_width speed_multiplier =
     (case lyrics of
        [] \<Rightarrow> Inr [Print (RED @ ''[ERROR] LRC kosong atau format salah.'' @ RESET)]
      | first # _ \<Rightarrow>
          if speed_multiplier = 0 then Inl ZeroDivisionError
          else
            let color = genre_color genre;
                base_speed = genre_speed genre / speed_multiplier;
                effect = genre_effect genre;
                wrap_w = (case wrap_width of Some w \<Rightarrow> w | None \<Rightarrow> cfg_wrap_width config);
                first_time = entry_start first;
                baseline = (case start_time of Some t \<Rightarrow> t | None \<Rightarrow> 0)
            in play_entries clock config color base_speed effect wrap_w first_time baseline offset
                 speed_multiplier 1 lyrics)"

text \<open>
  The absolute starts that \<open>play_realtime\<close> computes for the entries of \<open>lyrics\<close>, in
  order: the times it sleeps until before each entry.
\<close>

definition play_realtime_starts ::
  "entry list \<Rightarrow> real \<Rightarrow> real option \<Rightarrow> real \<Rightarrow> py_error + real list" where
  "play_realtime_starts lyrics offset start_time speed_multiplier =
     (case lyrics of
        [] \<Rightarrow> Inr []
      | first # _ \<Rightarrow>
          let first_time = entry_start first;
              baseline = (case start_time of Some t \<Rightarrow> t | None \<Rightarrow> 0)
          in sum_list_all (map (absolute_start first_time baseline offset speed_multiplier) lyrics))"

text \<open>The speeds given to \<open>animate_text\<close> in a list of events.\<close>

fun animate_speeds :: "event list \<Rightarrow> real list" where
  "animate_speeds [] = []"
| "animate_speeds (Animate t c s e # evs) = s # animate_speeds evs"
| "animate_speeds (ev # evs) = animate_speeds evs"

section \<open>Genre selection in main\<close>

text \<open>Line 666: the key looked up, from the command line argument and the configuration.\<close>

definition genre_key :: "config \<Rightarrow> string option \<Rightarrow> string" where
  "genre_key config arg_genre =
     map to_lower
       (case arg_genre of
          None \<Rightarrow> cfg_default_genre config
        | Some g \<Rightarrow> if g \<noteq> [] then g else cfg_default_genre config)"

text \<open>\<open>f"{key:20s}"\<close>: the key padded on the right with spaces to 20 characters.\<close>

definition fmt_20s :: "string \<Rightarrow> string" where
  "fmt_20s s = s @ replicate (20 - length s) CHR '' ''"

text \<open>Lines 668-671: the strings printed for an unknown genre.\<close>

definition unknown_genre_output :: "config \<Rightarrow> string \<Rightarrow> string list" where
  "unknown_genre_output config key =
     [RED @ ''[ERROR] Genre '' @ [CHR 0x27] @ key @ [CHR 0x27] @ '' tidak ditemukan.'' @ RESET
        @ [CHR 0x0A],
      YELLOW @ ''Genre yang tersedia:'' @ RESET]
     @ map (\<lambda>(k, genre_data). ''  '' @ fmt_20s k @ '' - '' @ genre_description genre_data)
           (cfg_genres config)"

text \<open>
  \<open>main\<close> from line 665 on, for a loaded configuration and the genre argument: the
  strings printed and the exit status. \<open>continue\<close> stands for lines 674-703, everything
  that follows the lookup of the genre (loading bar, parsing, export, playback).
\<close>

definition main ::
  "config \<Rightarrow> string option \<Rightarrow> (genre_config \<Rightarrow> string list \<times> nat) \<Rightarrow> string list \<times> nat" where
  "main config arg_genre continue =
     (let key = genre_key config arg_genre in
      case map_of (cfg_genres config) key of
        None \<Rightarrow> (unknown_genre_output config key, 1)
      | Some genre \<Rightarrow> continue genre)"

text \<open>A configuration with two of the genres of \<open>DEFAULT_CONFIG\<close>, used as a concrete input.\<close>

definition example_config :: config where
  "example_config =
     \<lparr>cfg_wrap_width = 48, cfg_margin_between_lines = 15 / 100, cfg_block_margin = 4 / 10,
      cfg_lrc_start_minute = 0, cfg_lrc_start_second = 0, cfg_show_time_display = True,
      cfg_default_genre = ''hiphop'',
      cfg_genres =
        [(''hiphop'', \<lparr>genre_color = CHR 0x1B # ''[93m'', genre_speed = 12 / 1000,
                       genre_effect = ''shake'', genre_description = ''Hip Hop''\<rparr>),
         (''rock'', \<lparr>genre_color = CHR 0x1B # ''[31m'', genre_speed = 13 / 1000,
                     genre_effect = ''heavy_shake'', genre_description = ''Rock''\<rparr>)]\<rparr>"

section \<open>Properties of the time codec\<close>

lemma digit_val_char: "d < 10 \<Longrightarrow> digit_val (digit_char d) = d"
proof -
  assume "d < 10"
  then have "d \<in> {0,1,2,3,4,5,6,7,8,9}" by auto
  then show ?thesis by (auto simp: digit_val_def digit_char_def)
qed

lemma is_digit_char: "d < 10 \<Longrightarrow> is_digit (digit_char d)"
proof -
  assume "d < 10"
  then have "d \<in> {0,1,2,3,4,5,6,7,8,9}" by auto
  then show ?thesis by (auto simp: is_digit_def digit_char_def)
qed

lemma all_digits_str_nat: "\<forall>c \<in> set (str_nat n). is_digit c"
proof (induction n rule: str_nat.induct)
  case (1 n)
  show ?case
  proof (cases "n < 10")
    case True
    then show ?thesis by (subst str_nat.simps) (simp add: is_digit_char)
  next
    case False
    with 1 show ?thesis by (subst str_nat.simps) (simp add: is_digit_char)
  qed
qed

lemma str_nat_nonempty: "str_nat n \<noteq> []"
  by (subst str_nat.simps) simp

lemma int_tail_digits: "\<forall>c \<in> set ds. is_digit c \<Longrightarrow> int_tail acc ds = Inr (digits_value acc ds)"
proof (induction ds arbitrary: acc)
  case Nil
  then show ?case by (simp add: digits_value_def)
next
  case (Cons c ds)
  then have "c \<noteq> CHR ''_''" by (auto simp: is_digit_def)
  with Cons show ?case by (simp add: digits_value_def)
qed

lemma digits_value_str_nat: "digits_value 0 (str_nat n) = n"
proof (induction n rule: str_nat.induct)
  case (1 n)
  show ?case
  proof (cases "n < 10")
    case True
    then show ?thesis by (subst str_nat.simps) (simp add: digits_value_def digit_val_char)
  next
    case False
    with 1 have "digits_value 0 (str_nat (n div 10)) = n div 10" by simp
    with False show ?thesis by (subst str_nat.simps) (simp add: digits_value_def digit_val_char)
  qed
qed

lemma dropWhile_none: "\<forall>c \<in> set s. \<not> p c \<Longrightarrow> dropWhile p s = s"
  by (cases s) auto

lemma strip_with_none: "\<forall>c \<in> set s. \<not> p c \<Longrightarrow> strip_with p s = s"
  by (simp add: strip_with_def dropWhile_none)

lemma digit_not_special:
  "is_digit c \<Longrightarrow> \<not> is_space c \<and> c \<noteq> CHR ''-'' \<and> c \<noteq> CHR ''+'' \<and> c \<noteq> CHR ''_''
     \<and> c \<noteq> CHR '':'' \<and> c \<noteq> CHR ''.'' \<and> c \<noteq> CHR ''['' \<and> c \<noteq> CHR '']''"
  by (auto simp: is_digit_def is_space_def)

lemma py_int_digits:
  assumes "ds \<noteq> []" and "\<forall>c \<in> set ds. is_digit c"
  shows "py_int ds = Inr (int (digits_value 0 ds))"
proof -
  from assms obtain c cs where ds: "ds = c # cs" by (cases ds) auto
  have strip: "py_strip ds = ds"
    unfolding py_strip_def using assms(2) by (intro strip_with_none) (simp add: digit_not_special)
  have c: "is_digit c" "c \<noteq> CHR ''-''" "c \<noteq> CHR ''+''"
    using assms(2) ds digit_not_special by auto
  have "int_digits (c # cs) = Inr (digits_value 0 (c # cs))"
    using assms(2) ds c(1) by (simp add: int_digits_def int_tail_digits digits_value_def)
  then show ?thesis
    using strip c ds by (simp add: py_int_def)
qed

lemma digits_value_zeros: "digits_value 0 (replicate k CHR ''0'' @ ds) = digits_value 0 ds"
  by (induction k) (simp_all add: digits_value_def digit_val_def)

lemma fmt_02d_nonneg: "0 \<le> n \<Longrightarrow> fmt_02d n = replicate (2 - length (str_nat (nat n))) CHR ''0'' @ str_nat (nat n)"
  by (simp add: fmt_02d_def)

lemma fmt_02d_digits:
  assumes "0 \<le> n"
  shows "\<forall>c \<in> set (fmt_02d n). is_digit c"
proof -
  have z: "is_digit CHR ''0''" by (simp add: is_digit_def)
  show ?thesis
    using all_digits_str_nat [of "nat n"] z assms by (auto simp: fmt_02d_nonneg)
qed

lemma fmt_02d_nonempty: "fmt_02d n \<noteq> []"
  by (simp add: fmt_02d_def str_nat_nonempty)

lemma py_int_fmt_02d: "0 \<le> n \<Longrightarrow> py_int (fmt_02d n) = Inr n"
proof -
  assume n: "0 \<le> n"
  have "py_int (fmt_02d n) = Inr (int (digits_value 0 (fmt_02d n)))"
    using n by (intro py_int_digits fmt_02d_nonempty fmt_02d_digits)
  also have "digits_value 0 (fmt_02d n) = nat n"
    using n by (simp add: fmt_02d_nonneg digits_value_zeros digits_value_str_nat)
  finally show ?thesis using n by simp
qed

lemma length_str_nat_small: "n < 100 \<Longrightarrow> length (str_nat n) = (if n < 10 then 1 else 2)"
  by (subst str_nat.simps, subst str_nat.simps) auto

lemma length_fmt_02d_small: "0 \<le> n \<Longrightarrow> n < 100 \<Longrightarrow> length (fmt_02d n) = 2"
  by (simp add: fmt_02d_nonneg length_str_nat_small)

lemma split_char_no_sep: "sep \<notin> set a \<Longrightarrow> split_char sep a = [a]"
  by (induction a) auto

lemma split_char_first: "sep \<notin> set a \<Longrightarrow> split_char sep (a @ sep # b) = a # split_char sep b"
  by (induction a) auto

lemma not_digit_seps:
  "\<not> is_digit CHR '':''" "\<not> is_digit CHR ''.''" "\<not> is_digit CHR ''[''" "\<not> is_digit CHR '']''"
  by (simp_all add: is_digit_def)

lemma digits_no_char: "\<forall>x \<in> set ds. is_digit x \<Longrightarrow> \<not> is_digit c \<Longrightarrow> c \<notin> set ds"
  by blast

lemma parse_formatted:
  assumes "0 \<le> m" "0 \<le> s" "0 \<le> c" "c < 100"
  shows "lrc_time_to_seconds pf (fmt_02d m @ '':'' @ fmt_02d s @ ''.'' @ fmt_02d c)
         = Inr (of_int (m * 60 + s) + of_int c / 100)"
proof -
  let ?M = "fmt_02d m" and ?S = "fmt_02d s" and ?C = "fmt_02d c"
  let ?t = "?M @ '':'' @ ?S @ ''.'' @ ?C"
  have dM: "\<forall>x \<in> set ?M. is_digit x" using assms(1) by (rule fmt_02d_digits)
  have dS: "\<forall>x \<in> set ?S. is_digit x" using assms(2) by (rule fmt_02d_digits)
  have dC: "\<forall>x \<in> set ?C. is_digit x" using assms(3) by (rule fmt_02d_digits)
  have sep: "\<not> is_space CHR '':''" "\<not> is_space CHR ''.''"
    by (simp_all add: is_space_def)
  have spM: "\<forall>x \<in> set ?M. \<not> is_space x" using dM digit_not_special by blast
  have spS: "\<forall>x \<in> set ?S. \<not> is_space x" using dS digit_not_special by blast
  have spC: "\<forall>x \<in> set ?C. \<not> is_space x" using dC digit_not_special by blast
  have nosp: "\<forall>x \<in> set ?t. \<not> is_space x"
    using spM spS spC sep by (simp add: ball_Un)
  have brM: "CHR ''['' \<notin> set ?M" "CHR '']'' \<notin> set ?M"
    using dM not_digit_seps by (blast intro: digits_no_char)+
  have brS: "CHR ''['' \<notin> set ?S" "CHR '']'' \<notin> set ?S"
    using dS not_digit_seps by (blast intro: digits_no_char)+
  have brC: "CHR ''['' \<notin> set ?C" "CHR '']'' \<notin> set ?C"
    using dC not_digit_seps by (blast intro: digits_no_char)+
  have nobr: "\<forall>x \<in> set ?t. \<not> x \<in> set ''[]''"
    using brM brS brC by (auto simp: ball_Un)
  have strip: "py_strip_chars ''[]'' (py_strip ?t) = ?t"
    unfolding py_strip_chars_def py_strip_def
    using nosp nobr by (simp only: strip_with_none)
  have colon: "CHR '':'' \<in> set ?t" by simp
  have cM: "CHR '':'' \<notin> set ?M" using dM not_digit_seps(1) by blast
  have cS: "CHR '':'' \<notin> set ?S" using dS not_digit_seps(1) by blast
  have cC: "CHR '':'' \<notin> set ?C" using dC not_digit_seps(1) by blast
  have cR: "CHR '':'' \<notin> set (?S @ ''.'' @ ?C)" using cS cC by simp
  have split1: "split_char CHR '':'' ?t = [?M, ?S @ ''.'' @ ?C]"
    using cM cR by (simp add: split_char_first split_char_no_sep)
  have dot: "CHR ''.'' \<in> set (?S @ ''.'' @ ?C)" by simp
  have pS: "CHR ''.'' \<notin> set ?S" using dS not_digit_seps(2) by blast
  have pC: "CHR ''.'' \<notin> set ?C" using dC not_digit_seps(2) by blast
  have split2: "split_char CHR ''.'' (?S @ ''.'' @ ?C) = [?S, ?C]"
    using pS pC by (simp add: split_char_first split_char_no_sep)
  have ints: "py_int ?M = Inr m" "py_int ?S = Inr s" "py_int ?C = Inr c"
    using assms by (simp_all add: py_int_fmt_02d)
  have len: "length ?C = 2" using assms by (simp add: length_fmt_02d_small)
  show ?thesis
    unfolding lrc_time_to_seconds_def strip Let_def
    by (simp only: colon split1 dot split2 ints len if_True list.case sum.case) simp
qed

lemma py_round_near: "\<bar>of_int (py_round z) - z\<bar> \<le> 1 / 2"
proof -
  have "of_int \<lfloor>z\<rfloor> \<le> z" "z < of_int \<lfloor>z\<rfloor> + 1" by linarith+
  then show ?thesis by (auto simp: py_round_def Let_def)
qed

lemma py_round_range:
  assumes "0 \<le> z" "z < 100"
  shows "0 \<le> py_round z \<and> py_round z \<le> 100"
proof -
  have "0 \<le> \<lfloor>z\<rfloor>" "\<lfloor>z\<rfloor> \<le> 99" using assms by (simp_all add: floor_le_iff le_floor_iff)
  then show ?thesis by (auto simp: py_round_def Let_def)
qed

lemma py_trunc_nonneg: "0 \<le> x \<Longrightarrow> py_trunc x = \<lfloor>x\<rfloor>"
  by (simp add: py_trunc_def)

lemma seconds_to_lrc_time_shape:
  assumes "0 \<le> x"
  shows "\<exists>M S C. seconds_to_lrc_time x = fmt_02d M @ '':'' @ fmt_02d S @ ''.'' @ fmt_02d C
           \<and> 0 \<le> M \<and> 0 \<le> S \<and> 0 \<le> C \<and> C < 100
           \<and> \<bar>of_int (M * 60 + S) + of_int C / 100 - x\<bar> \<le> 1 / 200"
proof -
  define m where "m = \<lfloor>x / 60\<rfloor>"
  define F where "F = \<lfloor>x\<rfloor>"
  define s where "s = F - 60 * m"
  define cs where "cs = py_round ((x - of_int F) * 100)"
  have m0: "0 \<le> m" using assms by (simp add: m_def)
  have mb: "of_int m \<le> x / 60" "x / 60 < of_int m + 1" unfolding m_def by linarith+
  have Fb: "of_int F \<le> x" "x < of_int F + 1" unfolding F_def by linarith+
  have "real_of_int (60 * m) \<le> x" "x < real_of_int (60 * m + 60)" using mb by simp_all
  then have "60 * m \<le> F" "F < 60 * m + 60"
    unfolding F_def by (simp_all only: le_floor_iff floor_less_iff)
  then have s0: "0 \<le> s" and s60: "s < 60" by (simp_all add: s_def)
  have t1: "py_trunc (py_floordiv x 60) = m"
    using m0 by (simp add: py_floordiv_def py_trunc_def m_def)
  have "py_mod x 60 = x - of_int (60 * m)" by (simp add: py_mod_def m_def)
  moreover have "0 \<le> x - of_int (60 * m)" using \<open>real_of_int (60 * m) \<le> x\<close> by simp
  ultimately have t2: "py_trunc (py_mod x 60) = s"
    by (simp only: py_trunc_nonneg floor_diff_of_int s_def F_def)
  have t3: "py_trunc x = F" using assms by (simp add: py_trunc_nonneg F_def)
  have fr: "0 \<le> (x - of_int F) * 100" "(x - of_int F) * 100 < 100" using Fb by simp_all
  then have cr: "0 \<le> cs" "cs \<le> 100" unfolding cs_def using py_round_range by blast+
  have near: "\<bar>of_int cs - (x - of_int F) * 100\<bar> \<le> 1 / 2"
    unfolding cs_def by (rule py_round_near)
  have val: "\<bar>of_int F + of_int cs / 100 - x\<bar> \<le> 1 / 200" using near by (simp add: abs_le_iff field_simps)
  have sec: "(if x < 0 then 0 else x) = x" using assms by simp
  have unf: "seconds_to_lrc_time x =
       fmt_02d (if cs = 100 \<and> s + 1 = 60 then m + 1 else m) @ '':'' @
       fmt_02d (if cs = 100 \<and> s + 1 = 60 then 0 else if cs = 100 then s + 1 else s) @ ''.'' @
       fmt_02d (if cs = 100 then 0 else cs)"
    unfolding seconds_to_lrc_time_def Let_def sec t1 t2 t3 cs_def [symmetric] by auto
  have Fms: "F = 60 * m + s" by (simp add: s_def)
  have fin: "\<exists>M S C. seconds_to_lrc_time x = fmt_02d M @ '':'' @ fmt_02d S @ ''.'' @ fmt_02d C
           \<and> 0 \<le> M \<and> 0 \<le> S \<and> 0 \<le> C \<and> C < 100
           \<and> \<bar>of_int (M * 60 + S) + of_int C / 100 - x\<bar> \<le> 1 / 200"
    if "seconds_to_lrc_time x = fmt_02d M @ '':'' @ fmt_02d S @ ''.'' @ fmt_02d C"
      and "0 \<le> M" "0 \<le> S" "0 \<le> C" "C < 100"
      and "real_of_int (M * 60 + S) + of_int C / 100 = of_int F + of_int cs / 100"
    for M S C
    apply (rule exI [of _ M], rule exI [of _ S], rule exI [of _ C])
    using that val by (simp only: simp_thms)
  show ?thesis
  proof (cases "cs = 100")
    case False
    with cr have "cs < 100" by simp
    moreover have "seconds_to_lrc_time x = fmt_02d m @ '':'' @ fmt_02d s @ ''.'' @ fmt_02d cs"
      using False unf by simp
    moreover have "real_of_int (m * 60 + s) + of_int cs / 100 = of_int F + of_int cs / 100"
      using Fms by (simp add: mult.commute)
    ultimately show ?thesis using m0 s0 cr(1) by (intro fin [of m s cs])
  next
    case True
    note c100 = True
    show ?thesis
    proof (cases "s + 1 = 60")
      case True
      have "seconds_to_lrc_time x = fmt_02d (m + 1) @ '':'' @ fmt_02d 0 @ ''.'' @ fmt_02d 0"
        using c100 True unf by simp
      moreover have "real_of_int ((m + 1) * 60 + 0) + of_int 0 / 100 = of_int F + of_int cs / 100"
        using Fms True c100 by simp
      moreover have "0 \<le> m + 1" using m0 by simp
      ultimately show ?thesis by (intro fin [of "m + 1" 0 0]) simp_all
    next
      case False
      have "seconds_to_lrc_time x = fmt_02d m @ '':'' @ fmt_02d (s + 1) @ ''.'' @ fmt_02d 0"
        using c100 False unf by simp
      moreover have "real_of_int (m * 60 + (s + 1)) + of_int 0 / 100 = of_int F + of_int cs / 100"
        using Fms c100 by simp
      moreover have "0 \<le> s + 1" using s0 by simp
      ultimately show ?thesis using m0 by (intro fin [of m "s + 1" 0]) simp_all
    qed
  qed
qed

text \<open>
  C2: for every real \<open>x \<ge> 0\<close>, parsing the formatted timestamp succeeds and recovers
  \<open>x\<close> to within 0.01 seconds.
\<close>

theorem C2_roundtrip:
  assumes "0 \<le> x"
  shows "\<exists>y. lrc_time_to_seconds pf (seconds_to_lrc_time x) = Inr y \<and> \<bar>y - x\<bar> \<le> 1 / 100"
proof -
  from seconds_to_lrc_time_shape [OF assms] obtain M S C where
    sh: "seconds_to_lrc_time x = fmt_02d M @ '':'' @ fmt_02d S @ ''.'' @ fmt_02d C"
    and b: "0 \<le> M" "0 \<le> S" "0 \<le> C" "C < 100"
    and v: "\<bar>of_int (M * 60 + S) + of_int C / 100 - x\<bar> \<le> 1 / 200" by blast
  have "lrc_time_to_seconds pf (seconds_to_lrc_time x) = Inr (of_int (M * 60 + S) + of_int C / 100)"
    unfolding sh using b by (rule parse_formatted)
  moreover have "\<bar>of_int (M * 60 + S) + of_int C / 100 - x\<bar> \<le> 1 / 100" using v by linarith
  ultimately show ?thesis by blast
qed

theorem C2_roundtrip_witness:
  "(0::real) \<le> 61237 / 1000 \<and>
   (\<exists>y. lrc_time_to_seconds (\<lambda>s. Inl ValueError) (seconds_to_lrc_time (61237 / 1000)) = Inr y
        \<and> \<bar>y - 61237 / 1000\<bar> \<le> 1 / 100)"
  using C2_roundtrip [of "61237 / 1000" "\<lambda>s. Inl ValueError"] by simp

section \<open>Properties of the lyric parser\<close>

lemma match_group_digits:
  assumes "match_group lo hi lit s = Some (ds, r)" and "0 < lo"
  shows "ds \<noteq> [] \<and> (\<forall>c \<in> set ds. is_digit c)"
proof -
  from assms(1) have ds: "ds = takeWhile is_digit s" and len: "lo \<le> length ds"
    by (auto simp: match_group_def Let_def split: list.splits if_splits)
  from ds have "\<forall>c \<in> set ds. is_digit c" by (auto dest: set_takeWhileD)
  moreover from len assms(2) have "ds \<noteq> []" by auto
  ultimately show ?thesis by simp
qed

lemma match_time_groups_int:
  assumes "match_time s = Some ((m, sec, ms), r)"
  shows "py_int m = Inr (int (digits_value 0 m)) \<and> py_int sec = Inr (int (digits_value 0 sec))
         \<and> py_int ms = Inr (int (digits_value 0 ms))"
proof -
  from assms obtain cs r1 r2 where
    g1: "match_group 1 2 CHR '':'' cs = Some (m, r1)" and
    g2: "match_group 2 2 CHR ''.'' r1 = Some (sec, r2)" and
    g3: "match_group 2 3 CHR '']'' r2 = Some (ms, r)"
    by (auto simp: match_time_def split: list.splits if_splits option.splits)
  from match_group_digits [OF g1] match_group_digits [OF g2] match_group_digits [OF g3]
  show ?thesis by (simp add: py_int_digits)
qed

lemma make_entry_placeholder: "placeholder_end (make_entry text g)"
  by (cases g) (simp add: make_entry_def placeholder_end_def Let_def)

lemma parse_line_placeholder:
  assumes "list_all placeholder_end lyrics"
  shows "list_all placeholder_end (parse_line lyrics line)"
proof -
  have cont: "list_all placeholder_end (butlast lyrics @ [(last lyrics)\<lparr>entry_text := t\<rparr>])"
    if "lyrics \<noteq> []" for t
  proof -
    from that have "lyrics = butlast lyrics @ [last lyrics]" by simp
    with assms have "list_all placeholder_end (butlast lyrics @ [last lyrics])" by simp
    then show ?thesis by (simp add: placeholder_end_def)
  qed
  show ?thesis
    using assms cont by (auto simp: parse_line_def Let_def list_all_iff make_entry_placeholder)
qed

lemma foldl_parse_line_placeholder:
  "list_all placeholder_end lyrics \<Longrightarrow> list_all placeholder_end (foldl parse_line lyrics ls)"
  by (induction ls arbitrary: lyrics) (simp_all add: parse_line_placeholder)

lemma length_update_ends: "length (update_ends xs) = length xs"
  by (induction xs rule: update_ends.induct) simp_all

lemma starts_update_ends: "map entry_start (update_ends xs) = map entry_start xs"
  by (induction xs rule: update_ends.induct) simp_all

lemma texts_update_ends: "map entry_text (update_ends xs) = map entry_text xs"
  by (induction xs rule: update_ends.induct) simp_all

lemma last_update_ends: "last (update_ends xs) = last xs"
proof (induction xs rule: update_ends.induct)
  case (1 a b rest)
  have "update_ends (b # rest) \<noteq> []"
    using length_update_ends [of "b # rest"] by (metis length_0_conv list.distinct(1))
  with 1 show ?case by simp
qed simp_all

lemma end_update_ends:
  "Suc i < length xs \<Longrightarrow> entry_end (update_ends xs ! i) = entry_start (xs ! Suc i)"
proof (induction xs arbitrary: i rule: update_ends.induct)
  case (1 a b rest)
  then show ?case by (cases i) simp_all
qed simp_all

lemma estimate_last_placeholder:
  assumes "lyrics \<noteq> [] \<Longrightarrow> placeholder_end (last lyrics)"
  shows "estimate_last lyrics = lyrics"
  using assms by (auto simp: estimate_last_def placeholder_end_def Let_def)

lemma sorted_lyrics_placeholder: "list_all placeholder_end (sorted_lyrics raw)"
proof -
  have "list_all placeholder_end (foldl parse_line [] (py_splitlines (py_strip raw)))"
    by (rule foldl_parse_line_placeholder) simp
  then show ?thesis by (simp add: sorted_lyrics_def list_all_iff)
qed

lemma sorted_lyrics_sorted: "sorted (map entry_start (sorted_lyrics raw))"
  by (simp add: sorted_lyrics_def)

lemma parse_lrc_text_eq: "parse_lrc_text raw = update_ends (sorted_lyrics raw)"
proof -
  have "placeholder_end (last (update_ends (sorted_lyrics raw)))" if "update_ends (sorted_lyrics raw) \<noteq> []"
  proof -
    from that have ne: "sorted_lyrics raw \<noteq> []" by auto
    then have "last (sorted_lyrics raw) \<in> set (sorted_lyrics raw)" by simp
    with sorted_lyrics_placeholder [of raw] have "placeholder_end (last (sorted_lyrics raw))"
      by (simp add: list_all_iff)
    then show ?thesis by (simp add: last_update_ends)
  qed
  then have "estimate_last (update_ends (sorted_lyrics raw)) = update_ends (sorted_lyrics raw)"
    by (rule estimate_last_placeholder)
  then show ?thesis by (simp add: parse_lrc_text_def sorted_lyrics_def Let_def)
qed

lemma parse_lrc_text_last:
  assumes "parse_lrc_text raw \<noteq> []"
  shows "entry_end (last (parse_lrc_text raw)) = entry_start (last (parse_lrc_text raw)) + 3"
proof -
  from assms have ne: "sorted_lyrics raw \<noteq> []" by (auto simp: parse_lrc_text_eq)
  then have "last (sorted_lyrics raw) \<in> set (sorted_lyrics raw)" by simp
  with sorted_lyrics_placeholder [of raw] have "placeholder_end (last (sorted_lyrics raw))"
    by (simp add: list_all_iff)
  then show ?thesis by (simp add: parse_lrc_text_eq last_update_ends placeholder_end_def)
qed

lemma parse_lrc_text_sorted: "sorted (map entry_start (parse_lrc_text raw))"
  by (simp add: parse_lrc_text_eq starts_update_ends sorted_lyrics_sorted)

lemma parse_lrc_text_next:
  assumes "Suc i < length (parse_lrc_text raw)"
  shows "entry_end (parse_lrc_text raw ! i) = entry_start (parse_lrc_text raw ! Suc i)"
proof -
  let ?S = "sorted_lyrics raw"
  from assms have len: "Suc i < length ?S" by (simp add: parse_lrc_text_eq length_update_ends)
  have "entry_start (update_ends ?S ! Suc i) = map entry_start (update_ends ?S) ! Suc i"
    using len by (simp add: length_update_ends)
  also have "\<dots> = entry_start (?S ! Suc i)" using len by (simp add: starts_update_ends)
  finally show ?thesis using len by (simp add: parse_lrc_text_eq end_update_ends)
qed

lemmas parse_eval =
  parse_lrc_def parse_lrc_text_def py_splitlines_def py_strip_def strip_with_def is_space_def
  is_linebreak_def parse_line_def is_meta_def meta_tags_def to_lower_def match_time_def
  match_group_def is_digit_def make_entry_def digits_value_def digit_val_def estimate_last_def
  Let_def

lemma parse_example_length_20:
  "parse_lrc (Some ''[00:01.00]aaaaaaaaaaaaaaaaaaaa'') =
     Inr [\<lparr>entry_start = 1, entry_end = 4, entry_text = ''aaaaaaaaaaaaaaaaaaaa''\<rparr>]"
  by (simp add: parse_eval)

lemma parse_example_equal_starts:
  "parse_lrc (Some (''[00:01.00]a'' @ [CHR 0x0A] @ ''[00:01.00]b'')) =
     Inr [\<lparr>entry_start = 1, entry_end = 1, entry_text = ''a''\<rparr>,
          \<lparr>entry_start = 1, entry_end = 4, entry_text = ''b''\<rparr>]"
  by (simp add: parse_eval)

lemma parse_example_hello:
  "parse_lrc (Some ''[00:01.00]hello[00:02.50]'') =
     Inr [\<lparr>entry_start = 1, entry_end = 5 / 2, entry_text = ''hello''\<rparr>,
          \<lparr>entry_start = 5 / 2, entry_end = 11 / 2, entry_text = ''hello''\<rparr>]"
  by (simp add: parse_eval)

lemma parse_line_example_hello:
  "\<not> is_meta (py_strip ''[00:01.00]hello[00:02.50]'') \<and>
   findall_time (py_strip ''[00:01.00]hello[00:02.50]'') = [(''00'', ''01'', ''00''), (''00'', ''02'', ''50'')] \<and>
   py_strip (sub_time (py_strip ''[00:01.00]hello[00:02.50]'')) = ''hello''"
  by (simp add: parse_eval)

text \<open>
  C1 as stated fails: the only entry of this file has a text of length 20 and
  its end is start + 3.0, not start + 2.0.
\<close>

theorem C1_last_end_counterexample:
  "parse_lrc (Some ''[00:01.00]aaaaaaaaaaaaaaaaaaaa'') =
     Inr [\<lparr>entry_start = 1, entry_end = 4, entry_text = ''aaaaaaaaaaaaaaaaaaaa''\<rparr>]
   \<and> length ''aaaaaaaaaaaaaaaaaaaa'' = 20
   \<and> (4::real) \<noteq> 1 + max 2 (real (length ''aaaaaaaaaaaaaaaaaaaa'') * (1 / 10))"
  using parse_example_length_20 by simp

text \<open>
  C1, amended: the last entry of every parsed sequence keeps the end given at its creation,
  start + 3.0, whatever the length of its text; the estimate from the text length is
  guarded by end <= start, which no parsed entry satisfies.
\<close>

theorem C1_last_end:
  assumes "parse_lrc (Some raw) = Inr es" and "es \<noteq> []"
  shows "entry_end (last es) = entry_start (last es) + 3"
proof -
  from assms(1) have "es = parse_lrc_text raw" by (simp add: parse_lrc_def)
  with assms(2) show ?thesis by (simp add: parse_lrc_text_last)
qed

theorem C1_last_end_witness:
  "parse_lrc (Some ''[00:01.00]aaaaaaaaaaaaaaaaaaaa'') =
     Inr [\<lparr>entry_start = 1, entry_end = 4, entry_text = ''aaaaaaaaaaaaaaaaaaaa''\<rparr>]
   \<and> [\<lparr>entry_start = 1, entry_end = 4, entry_text = ''aaaaaaaaaaaaaaaaaaaa''\<rparr>] \<noteq> []
   \<and> entry_end (last [\<lparr>entry_start = 1, entry_end = 4, entry_text = ''aaaaaaaaaaaaaaaaaaaa''\<rparr>])
       = entry_start (last [\<lparr>entry_start = 1, entry_end = 4, entry_text = ''aaaaaaaaaaaaaaaaaaaa''\<rparr>]) + 3"
  using C1_last_end [OF parse_example_length_20] parse_example_length_20 by blast

text \<open>
  C6 as stated fails: two lines with the same timestamp give a first entry
  whose end equals its start.
\<close>

theorem C6_end_after_start_counterexample:
  "parse_lrc (Some (''[00:01.00]a'' @ [CHR 0x0A] @ ''[00:01.00]b'')) =
     Inr [\<lparr>entry_start = 1, entry_end = 1, entry_text = ''a''\<rparr>,
          \<lparr>entry_start = 1, entry_end = 4, entry_text = ''b''\<rparr>]
   \<and> \<not> entry_start \<lparr>entry_start = 1, entry_end = 1, entry_text = ''a''\<rparr>
        < entry_end \<lparr>entry_start = 1, entry_end = 1, entry_text = ''a''\<rparr>"
  using parse_example_equal_starts by simp

text \<open>
  C6, amended: every entry of the returned sequence satisfies end >= start, and end > start
  holds exactly for the last entry and for the entries whose successor starts strictly
  later.
\<close>

theorem C6_end_after_start:
  assumes "parse_lrc (Some raw) = Inr es" and "i < length es"
  shows "entry_start (es ! i) \<le> entry_end (es ! i) \<and>
         (entry_start (es ! i) < entry_end (es ! i) \<longleftrightarrow>
            Suc i = length es \<or> entry_start (es ! i) < entry_start (es ! Suc i))"
proof -
  from assms(1) have es: "es = parse_lrc_text raw" by (simp add: parse_lrc_def)
  show ?thesis
  proof (cases "Suc i = length es")
    case True
    with assms(2) have ne: "es \<noteq> []" by auto
    with True have "last es = es ! i" by (simp add: last_conv_nth flip: True)
    with parse_lrc_text_last [of raw] es ne True show ?thesis by simp
  next
    case False
    with assms(2) have len: "Suc i < length es" by simp
    then have e: "entry_end (es ! i) = entry_start (es ! Suc i)"
      unfolding es by (rule parse_lrc_text_next)
    have "sorted (map entry_start es)" unfolding es by (rule parse_lrc_text_sorted)
    then have "map entry_start es ! i \<le> map entry_start es ! Suc i"
      using len by (intro sorted_nth_mono) simp_all
    then have "entry_start (es ! i) \<le> entry_start (es ! Suc i)" using len by simp
    with e False show ?thesis by simp
  qed
qed

theorem C6_end_after_start_witness:
  "parse_lrc (Some (''[00:01.00]a'' @ [CHR 0x0A] @ ''[00:01.00]b'')) =
     Inr [\<lparr>entry_start = 1, entry_end = 1, entry_text = ''a''\<rparr>,
          \<lparr>entry_start = 1, entry_end = 4, entry_text = ''b''\<rparr>]
   \<and> (0::nat) < length [\<lparr>entry_start = 1, entry_end = 1, entry_text = ''a''\<rparr>,
          \<lparr>entry_start = 1, entry_end = 4, entry_text = ''b''\<rparr>]
   \<and> entry_start ([\<lparr>entry_start = 1, entry_end = 1, entry_text = ''a''\<rparr>,
          \<lparr>entry_start = 1, entry_end = 4, entry_text = ''b''\<rparr>] ! 0)
      \<le> entry_end ([\<lparr>entry_start = 1, entry_end = 1, entry_text = ''a''\<rparr>,
          \<lparr>entry_start = 1, entry_end = 4, entry_text = ''b''\<rparr>] ! 0)"
  using C6_end_after_start [OF parse_example_equal_starts, of 0] parse_example_equal_starts
  by simp

text \<open>
  C8: the file \<open>[00:01.00]hello[00:02.50]\<close> parses to exactly two entries, both with the
  text hello, with the starts 1.00 and 2.50. In general a line that is not a metadata line
  and carries n timestamps makes the loop append n entries, one for each timestamp, all
  with the text of the line stripped of its timestamps.
\<close>

theorem C8_multiple_timestamps:
  "parse_lrc (Some ''[00:01.00]hello[00:02.50]'') =
     Inr [\<lparr>entry_start = 1, entry_end = 5 / 2, entry_text = ''hello''\<rparr>,
          \<lparr>entry_start = 5 / 2, entry_end = 11 / 2, entry_text = ''hello''\<rparr>]
   \<and> (\<not> is_meta (py_strip line) \<longrightarrow>
        length (parse_line lyrics line) = length lyrics + length (findall_time (py_strip line))
        \<and> drop (length lyrics) (parse_line lyrics line) =
            map (make_entry (py_strip (sub_time (py_strip line)))) (findall_time (py_strip line))
        \<and> map entry_text (drop (length lyrics) (parse_line lyrics line)) =
            replicate (length (findall_time (py_strip line))) (py_strip (sub_time (py_strip line))))"
proof -
  let ?ts = "findall_time (py_strip line)" and ?text = "py_strip (sub_time (py_strip line))"
  have texts: "map entry_text (map (make_entry t) ts) = replicate (length ts) t" for t ts
    by (induction ts) (auto simp: make_entry_def Let_def)
  have nil: "findall_time [] = []" by simp
  have gen: "length (parse_line lyrics line) = length lyrics + length ?ts
        \<and> drop (length lyrics) (parse_line lyrics line) = map (make_entry ?text) ?ts"
    if "\<not> is_meta (py_strip line)"
  proof (cases "?ts = []")
    case True
    then show ?thesis by (auto simp: parse_line_def Let_def)
  next
    case False
    then have "py_strip line \<noteq> []" using nil by metis
    with False that show ?thesis by (simp add: parse_line_def Let_def)
  qed
  show ?thesis using parse_example_hello gen texts by simp
qed

theorem C8_multiple_timestamps_witness:
  "\<not> is_meta (py_strip ''[00:01.00]hello[00:02.50]'') \<and>
   length (parse_line [] ''[00:01.00]hello[00:02.50]'') = 0 + 2 \<and>
   map entry_text (drop 0 (parse_line [] ''[00:01.00]hello[00:02.50]'')) = [''hello'', ''hello'']"
proof -
  note ex = parse_line_example_hello
  from ex have m: "\<not> is_meta (py_strip ''[00:01.00]hello[00:02.50]'')" by blast
  from C8_multiple_timestamps [of "''[00:01.00]hello[00:02.50]''" "[]"] m
  show ?thesis by (simp add: ex make_entry_def Let_def)
qed

section \<open>Properties of the exporter and of the animation delay\<close>

lemma word_timings_nth:
  assumes "k < length (py_split (entry_text c))"
  shows "word_timings c ! k =
     (let step = max (1 / 10000) (entry_end c - entry_start c) / real (length (py_split (entry_text c)));
          word_start = entry_start c + real k * step
      in \<lparr>wt_word = py_split (entry_text c) ! k, wt_start = word_start, wt_end = word_start + step,
          wt_start_time = seconds_to_lrc_time word_start,
          wt_end_time = seconds_to_lrc_time (word_start + step)\<rparr>)"
proof -
  from assms have ne: "py_split (entry_text c) \<noteq> []" by auto
  show ?thesis using assms ne by (simp add: word_timings_def Let_def nth_enumerate_eq)
qed

text \<open>
  C7: the exporter gives word k (0-based) of an entry start = entry.start + k * step and
  end = start + step, with step = max(0.0001, end - start) / word_count. At the entries
  (0, 2, a) and (2, 5, b c) the second entry has the words b with [2.0, 3.5] and c with
  [3.5, 5.0], the step being 1.5.
\<close>

theorem C7_word_timings:
  assumes "i < length lyrics" and "k < length (py_split (entry_text (lyrics ! i)))"
  shows "(let c = lyrics ! i;
              step = max (1 / 10000) (entry_end c - entry_start c) / real (length (py_split (entry_text c)));
              w = cap_words (res_captions (export_json lyrics) ! i) ! k
          in wt_word w = py_split (entry_text c) ! k
             \<and> wt_start w = entry_start c + real k * step
             \<and> wt_end w = wt_start w + step)"
proof -
  have "cap_words (res_captions (export_json lyrics) ! i) = word_timings (lyrics ! i)"
    using assms(1) by (simp add: export_json_def export_caption_def)
  then show ?thesis using word_timings_nth [OF assms(2)] by (simp add: Let_def)
qed

lemma split_b_c: "py_split ''b c'' = [''b'', ''c'']"
  by (simp add: py_split_def is_space_def)

theorem C7_word_timings_witness:
  "(1::nat) < length [\<lparr>entry_start = 0, entry_end = 2, entry_text = ''a''\<rparr>,
                     \<lparr>entry_start = 2, entry_end = 5, entry_text = ''b c''\<rparr>]
   \<and> (0::nat) < length (py_split ''b c'') \<and> (1::nat) < length (py_split ''b c'')
   \<and> map (\<lambda>w. (wt_word w, wt_start w, wt_end w))
        (map (\<lambda>k. cap_words (res_captions (export_json
           [\<lparr>entry_start = 0, entry_end = 2, entry_text = ''a''\<rparr>,
            \<lparr>entry_start = 2, entry_end = 5, entry_text = ''b c''\<rparr>]) ! 1) ! k) [0, 1])
      = [(''b'', 2, 7 / 2), (''c'', 7 / 2, 5)]"
  using C7_word_timings [of 1 "[\<lparr>entry_start = 0, entry_end = 2, entry_text = ''a''\<rparr>,
            \<lparr>entry_start = 2, entry_end = 5, entry_text = ''b c''\<rparr>]" 0]
    C7_word_timings [of 1 "[\<lparr>entry_start = 0, entry_end = 2, entry_text = ''a''\<rparr>,
            \<lparr>entry_start = 2, entry_end = 5, entry_text = ''b c''\<rparr>]" 1]
  by (simp add: split_b_c Let_def)

lemma scaled_between:
  fixes b f :: real
  assumes "0 \<le> b" and "1 / 2 \<le> f" and "f \<le> 3 / 2"
  shows "(1 / 2) * b \<le> b * f \<and> b * f \<le> (3 / 2) * b"
proof -
  have "b * (1 / 2) \<le> b * f" using assms(1,2) by (rule mult_left_mono [rotated])
  moreover have "b * f \<le> b * (3 / 2)" using assms(1,3) by (rule mult_left_mono [rotated])
  ultimately show ?thesis by (simp add: mult.commute)
qed

lemma sin_factor_between:
  fixes a t :: real
  assumes "0 \<le> a" and "a \<le> 1 / 2"
  shows "1 / 2 \<le> 1 + a * sin t \<and> 1 + a * sin t \<le> 3 / 2"
proof -
  have "\<bar>a * sin t\<bar> \<le> a * 1"
    unfolding abs_mult using assms(1) by (intro mult_mono) (simp_all)
  then show ?thesis using assms(2) by (simp add: abs_le_iff)
qed

text \<open>
  C10: for every effect tag, every character index, every base_speed >= 0 and every random
  draw in [0, 1), the delay lies between 0.5 * base_speed and 1.5 * base_speed, and it is
  strictly positive when base_speed is.
\<close>

theorem C10_animation_delay_range:
  assumes "0 \<le> base_speed" and "0 \<le> r" and "r < 1"
  shows "(1 / 2) * base_speed \<le> get_animation_delay r effect base_speed char_index
         \<and> get_animation_delay r effect base_speed char_index \<le> (3 / 2) * base_speed
         \<and> (0 < base_speed \<longrightarrow> 0 < get_animation_delay r effect base_speed char_index)"
proof -
  have "\<exists>f. get_animation_delay r effect base_speed char_index = base_speed * f
            \<and> 1 / 2 \<le> f \<and> f \<le> 3 / 2"
  proof -
    have s: "1 / 2 \<le> 1 + a * sin t \<and> 1 + a * sin t \<le> 3 / 2" if "0 \<le> a" "a \<le> 1 / 2" for a t :: real
      using that by (rule sin_factor_between)
    have r1: "(1 / 2 :: real) \<le> 8 / 10 + r * (4 / 10) \<and> 8 / 10 + r * (4 / 10) \<le> 3 / 2"
      using assms(2,3) by simp
    have r2: "(1 / 2 :: real) \<le> 5 / 10 + r * 1 \<and> 5 / 10 + r * 1 \<le> 3 / 2"
      using assms(2,3) by simp
    have one: "base_speed = base_speed * 1" by simp
    consider "effect = ''bounce''" | "effect = ''wave''" | "effect = ''swing''"
      | "effect = ''shake'' \<or> effect = ''heavy_shake''" | "effect = ''glitch''"
      | "effect = ''vibrate''" | "effect = ''salsa''" | "effect = ''reggae_wave''"
      | "effect \<notin> set [''bounce'', ''wave'', ''swing'', ''shake'', ''heavy_shake'', ''glitch'',
                         ''vibrate'', ''salsa'', ''reggae_wave'']"
      by auto
    then show ?thesis
    proof cases
      case 1 then show ?thesis using r1 by (auto simp: get_animation_delay_def)
    next
      case 2 then show ?thesis using s [of "3 / 10"] by (auto simp: get_animation_delay_def)
    next
      case 3 then show ?thesis using s [of "2 / 10"] by (auto simp: get_animation_delay_def)
    next
      case 4
      then have "get_animation_delay r effect base_speed char_index =
          base_speed * (if char_index mod 3 = 0 then 5 / 10 else 1)"
        by (auto simp: get_animation_delay_def)
      then show ?thesis by (intro exI [of _ "if char_index mod 3 = 0 then 5 / 10 else 1"]) simp
    next
      case 5 then show ?thesis using r2 by (auto simp: get_animation_delay_def)
    next
      case 6 then show ?thesis using s [of "15 / 100"] by (auto simp: get_animation_delay_def)
    next
      case 7 then show ?thesis using s [of "25 / 100"] by (auto simp: get_animation_delay_def)
    next
      case 8 then show ?thesis using s [of "2 / 10"] by (auto simp: get_animation_delay_def)
    next
      case 9
      then have "get_animation_delay r effect base_speed char_index = base_speed * 1"
        by (simp add: get_animation_delay_def)
      then show ?thesis by (intro exI [of _ 1]) simp
    qed
  qed
  then obtain f where d: "get_animation_delay r effect base_speed char_index = base_speed * f"
    and f: "1 / 2 \<le> f" "f \<le> 3 / 2" by blast
  from scaled_between [OF assms(1) f] have rng:
    "(1 / 2) * base_speed \<le> base_speed * f \<and> base_speed * f \<le> (3 / 2) * base_speed" .
  have "0 < base_speed * f" if "0 < base_speed" using that f(1) by (simp add: zero_less_mult_iff)
  with rng show ?thesis unfolding d by blast
qed

theorem C10_animation_delay_range_witness:
  "(0::real) \<le> 1 \<and> (0::real) \<le> 1 / 2 \<and> (1 / 2 :: real) < 1
   \<and> (1 / 2) * 1 \<le> get_animation_delay (1 / 2) ''glitch'' 1 0
   \<and> get_animation_delay (1 / 2) ''glitch'' 1 0 \<le> (3 / 2) * 1
   \<and> 0 < get_animation_delay (1 / 2) ''glitch'' 1 0"
  using C10_animation_delay_range [of 1 "1 / 2" "''glitch''" 0] by simp

section \<open>Properties of the schedule, of the playback and of the genre selection\<close>

lemma adjusted_start_eq_absolute_start:
  "adjusted_start first_time baseline offset speed_multiplier line =
   absolute_start first_time baseline offset speed_multiplier line"
  by (simp add: adjusted_start_def absolute_start_def)

lemma adjusted_start_fun:
  "adjusted_start first_time baseline offset speed_multiplier =
   absolute_start first_time baseline offset speed_multiplier"
  by (rule ext) (rule adjusted_start_eq_absolute_start)

lemma sum_list_all_Inr: "sum_list_all (map (\<lambda>x. Inr (f x)) xs) = Inr (map f xs)"
  by (induction xs) simp_all

lemma absolute_starts_value:
  assumes "speed_multiplier \<noteq> 0"
  shows "sum_list_all (map (absolute_start first_time baseline offset speed_multiplier) lyrics) =
         Inr (map (\<lambda>line. baseline + (entry_start line - first_time) / speed_multiplier + offset) lyrics)"
proof -
  have "absolute_start first_time baseline offset speed_multiplier =
        (\<lambda>line. Inr (baseline + (entry_start line - first_time) / speed_multiplier + offset))"
    using assms by (auto simp: absolute_start_def Let_def)
  then show ?thesis by (simp only: sum_list_all_Inr)
qed

lemma print_schedule_loop_starts:
  assumes "sum_list_all (map (adjusted_start first_time baseline offset speed_multiplier) ls) = Inr starts"
  shows "print_schedule_loop config first_time baseline offset speed_multiplier ls =
         Inr (concat (map2 (schedule_entry_lines config) starts ls))"
  using assms
proof (induction ls arbitrary: starts)
  case Nil
  then show ?case by simp
next
  case (Cons line rest)
  from Cons.prems obtain a as where
    a: "adjusted_start first_time baseline offset speed_multiplier line = Inr a" and
    as: "sum_list_all (map (adjusted_start first_time baseline offset speed_multiplier) rest) = Inr as" and
    st: "starts = a # as"
    by (auto split: sum.splits)
  from a have nz: "speed_multiplier \<noteq> 0" by (auto simp: adjusted_start_def split: if_splits)
  then obtain b where b: "adjusted_end first_time baseline offset speed_multiplier line = Inr b"
    by (simp add: adjusted_end_def Let_def)
  show ?case using Cons.IH [OF as] a b st by simp
qed

lemma print_schedule_reports_starts:
  assumes "print_schedule_starts lyrics offset start_time speed_multiplier = Inr starts"
    and "lyrics \<noteq> []"
  shows "\<exists>header. print_schedule float_str lyrics config offset start_time speed_multiplier =
           Inr (header @ concat (map2 (schedule_entry_lines config) starts lyrics))"
proof -
  from assms(2) obtain first rest where l: "lyrics = first # rest" by (cases lyrics) auto
  from assms(1) have "sum_list_all (map (adjusted_start (entry_start first)
        (case start_time of Some t \<Rightarrow> t | None \<Rightarrow> 0) offset speed_multiplier) lyrics) = Inr starts"
    unfolding l by (simp add: print_schedule_starts_def Let_def)
  from print_schedule_loop_starts [OF this, of config]
  show ?thesis unfolding l by (simp add: print_schedule_def Let_def)
qed

text \<open>
  When an entry's absolute start is still ahead of the clock, the first effect of the entry
  is the sleep of the remaining time: the absolute start is the time the playback targets.
\<close>

lemma play_entries_sleeps_until_start:
  assumes "play_entries clock config color base_speed effect wrap_w first_time baseline offset
             speed_multiplier k (line # rest) = Inr evs"
    and "absolute_start first_time baseline offset speed_multiplier line = Inr a"
    and "a - (clock k - clock 0) > 0"
  shows "\<exists>evs'. evs = Sleep (a - (clock k - clock 0)) # evs'"
proof (cases rest)
  case Nil
  with assms show ?thesis by (auto simp: Let_def)
next
  case (Cons next_line rest')
  with assms show ?thesis by (auto simp: Let_def split: sum.splits)
qed


text \<open>
  C5 as stated fails when a start time is given: with start_time = 10 and
  zero offset the second entry is scheduled at 14 for the multiplier 1.0 and at 12, not 7,
  for the multiplier 2.0.
\<close>

theorem C5_speed_two_halves_counterexample:
  "play_realtime_starts [\<lparr>entry_start = 0, entry_end = 4, entry_text = ''a''\<rparr>,
                         \<lparr>entry_start = 4, entry_end = 7, entry_text = ''b''\<rparr>] 0 (Some 10) 2
     = Inr [10, 12]
   \<and> play_realtime_starts [\<lparr>entry_start = 0, entry_end = 4, entry_text = ''a''\<rparr>,
                         \<lparr>entry_start = 4, entry_end = 7, entry_text = ''b''\<rparr>] 0 (Some 10) 1
     = Inr [10, 14]
   \<and> (12::real) \<noteq> 14 / 2"
  by (simp add: play_realtime_starts_def absolute_start_def Let_def)

text \<open>
  C5, amended: for every entry sequence, zero offset and no start time (or a start time of
  0), every absolute start computed with the multiplier 2.0, by play_realtime and by
  print_schedule, is half of the one computed with the multiplier 1.0 for the same entry.
\<close>

theorem C5_speed_two_halves:
  assumes "start_time = None \<or> start_time = Some 0"
  shows "\<exists>starts. play_realtime_starts lyrics 0 start_time 1 = Inr starts
           \<and> play_realtime_starts lyrics 0 start_time 2 = Inr (map (\<lambda>a. a / 2) starts)
           \<and> print_schedule_starts lyrics 0 start_time 1 = Inr starts
           \<and> print_schedule_starts lyrics 0 start_time 2 = Inr (map (\<lambda>a. a / 2) starts)"
proof -
  from assms have b: "(case start_time of Some t \<Rightarrow> t | None \<Rightarrow> 0) = (0::real)" by auto
  show ?thesis
  proof (cases lyrics)
    case Nil
    then show ?thesis by (simp add: play_realtime_starts_def print_schedule_starts_def)
  next
    case (Cons first rest)
    have "play_realtime_starts lyrics 0 start_time m =
          Inr (map (\<lambda>line. 0 + (entry_start line - entry_start first) / m + 0) lyrics)"
      if "m \<noteq> 0" for m
      unfolding Cons play_realtime_starts_def list.case Let_def b
      using that by (rule absolute_starts_value)
    moreover have "print_schedule_starts lyrics 0 start_time m = play_realtime_starts lyrics 0 start_time m" for m
      by (cases lyrics)
        (simp_all add: print_schedule_starts_def play_realtime_starts_def adjusted_start_fun)
    ultimately show ?thesis by (simp add: comp_def)
  qed
qed

theorem C5_speed_two_halves_witness:
  "((None :: real option) = None \<or> (None :: real option) = Some 0)
   \<and> play_realtime_starts [\<lparr>entry_start = 1, entry_end = 5, entry_text = ''a''\<rparr>,
                           \<lparr>entry_start = 5, entry_end = 8, entry_text = ''b''\<rparr>] 0 None 1
       = Inr [0, 4]
   \<and> play_realtime_starts [\<lparr>entry_start = 1, entry_end = 5, entry_text = ''a''\<rparr>,
                           \<lparr>entry_start = 5, entry_end = 8, entry_text = ''b''\<rparr>] 0 None 2
       = Inr [0, 2]
   \<and> print_schedule_starts [\<lparr>entry_start = 1, entry_end = 5, entry_text = ''a''\<rparr>,
                            \<lparr>entry_start = 5, entry_end = 8, entry_text = ''b''\<rparr>] 0 None 2
       = Inr [0, 2]"
proof -
  let ?ex = "[\<lparr>entry_start = 1, entry_end = 5, entry_text = ''a''\<rparr>,
              \<lparr>entry_start = 5, entry_end = 8, entry_text = ''b''\<rparr>]"
  have one: "play_realtime_starts ?ex 0 None 1 = Inr [0, 4]"
    by (simp add: play_realtime_starts_def absolute_start_def Let_def)
  from C5_speed_two_halves [of None ?ex] obtain starts where
    "play_realtime_starts ?ex 0 None 1 = Inr starts"
    "play_realtime_starts ?ex 0 None 2 = Inr (map (\<lambda>a. a / 2) starts)"
    "print_schedule_starts ?ex 0 None 2 = Inr (map (\<lambda>a. a / 2) starts)"
    by blast
  with one show ?thesis by simp
qed

lemma animate_speeds_append: "animate_speeds (xs @ ys) = animate_speeds xs @ animate_speeds ys"
  by (induction xs rule: animate_speeds.induct) simp_all

lemma paren_loop_speeds:
  "set (animate_speeds (paren_loop wl color dim_color s effect last_idx spans)) \<subseteq> {s}"
proof (induction spans arbitrary: last_idx)
  case Nil
  then show ?case by simp
next
  case (Cons sp spans)
  obtain b e where sp: "sp = (b, e)" by (cases sp)
  from Cons [of e] show ?case
    unfolding sp by (auto simp: animate_speeds_append split: if_splits)
qed

lemma paren_loop_speeds_nonempty:
  "spans \<noteq> [] \<Longrightarrow> s \<in> set (animate_speeds (paren_loop wl color dim_color s effect last_idx spans))"
  by (cases spans) (auto simp: animate_speeds_append)

lemma wrapped_line_events_speeds:
  "set (animate_speeds
     ((if dash then [Animate wl d s effect]
       else (case spans of
               [] \<Rightarrow> [Animate wl color s effect]
             | sp # sps \<Rightarrow> paren_loop wl color d s effect 0 (sp # sps)))
      @ [Print [], Sleep margin])) = {s}"
proof (cases spans)
  case Nil
  then show ?thesis by (simp add: animate_speeds_append)
next
  case (Cons sp sps)
  then have ne: "spans \<noteq> []" by simp
  have "set (animate_speeds (paren_loop wl color d s effect 0 spans)) = {s}"
    using paren_loop_speeds [of wl color d s effect 0 spans]
      paren_loop_speeds_nonempty [OF ne, of s wl color d effect 0] by blast
  then show ?thesis
    unfolding Cons list.case animate_speeds_append by (simp del: paren_loop.simps)
qed

lemma play_wrapped_line_speeds:
  "set (animate_speeds (play_wrapped_line color base_speed effect margin playback_start a now wl)) =
     {if (now - playback_start) - a > 0
      then max (base_speed / min 3 (1 + ((now - playback_start) - a) * 2)) (1 / 1000)
      else base_speed}"
  unfolding play_wrapped_line_def Let_def by (rule wrapped_line_events_speeds)

text \<open>
  C4: when the drift computed before a wrapped sub-line (the clock reading minus the
  playback start minus the entry's absolute start) is positive, every call of animate_text
  for that sub-line, and there is at least one, gets the speed
  max(base_speed / min(3.0, 1.0 + drift * 2.0), 0.001); for a drift of 1.0 the catch-up
  factor is 3.0 and the speed is max(base_speed / 3.0, 0.001).
\<close>

theorem C4_drift_compensation:
  assumes "drift = (now - playback_start) - a" and "0 < drift"
  shows "set (animate_speeds (play_wrapped_line color base_speed effect margin playback_start a now wl))
           = {max (base_speed / min 3 (1 + drift * 2)) (1 / 1000)}
         \<and> (drift = 1 \<longrightarrow>
              min 3 (1 + drift * 2) = 3 \<and>
              set (animate_speeds (play_wrapped_line color base_speed effect margin playback_start a now wl))
                = {max (base_speed / 3) (1 / 1000)})"
  using assms by (auto simp: play_wrapped_line_speeds)

theorem C4_drift_compensation_witness:
  "(1::real) = (3 - 0) - 2 \<and> (0::real) < 1
   \<and> set (animate_speeds (play_wrapped_line ''c'' (3 / 100) ''shake'' (15 / 100) 0 2 3 ''hi (you)''))
       = {1 / 100}"
  using C4_drift_compensation [of 1 3 0 2 "''c''" "3 / 100" "''shake''" "15 / 100" "''hi (you)''"]
  by simp

text \<open>
  C9: when the genre name looked up (the argument in lower case, or the default genre when
  no argument is given) is not a key of the genre mapping, main prints the error message and
  one line for every configured genre with its name and description, and exits with status
  1; nothing of what follows the lookup (parsing, export, playback) is run.
\<close>

theorem C9_unknown_genre:
  assumes "genre_key config arg_genre \<notin> fst ` set (cfg_genres config)"
  shows "main config arg_genre continue =
           (unknown_genre_output config (genre_key config arg_genre), 1)
         \<and> (\<forall>(k, g) \<in> set (cfg_genres config).
               ''  '' @ fmt_20s k @ '' - '' @ genre_description g
                 \<in> set (fst (main config arg_genre continue)))
         \<and> snd (main config arg_genre continue) \<noteq> 0"
proof -
  from assms have "map_of (cfg_genres config) (genre_key config arg_genre) = None"
    by (simp add: map_of_eq_None_iff)
  then have m: "main config arg_genre continue =
           (unknown_genre_output config (genre_key config arg_genre), 1)"
    by (simp add: main_def Let_def)
  have "''  '' @ fmt_20s k @ '' - '' @ genre_description g
          \<in> set (unknown_genre_output config key)" if "(k, g) \<in> set (cfg_genres config)" for k g key
    using that by (force simp: unknown_genre_output_def)
  with m show ?thesis by auto
qed

lemma genre_key_example: "genre_key example_config (Some ''Polka'') = ''polka''"
  by (simp add: genre_key_def to_lower_def)

theorem C9_unknown_genre_witness:
  "genre_key example_config (Some ''Polka'') \<notin> fst ` set (cfg_genres example_config)
   \<and> snd (main example_config (Some ''Polka'') (\<lambda>g. ([], 0))) = 1
   \<and> ''  hiphop               - Hip Hop'' \<in> set (fst (main example_config (Some ''Polka'') (\<lambda>g. ([], 0))))
   \<and> ''  rock                 - Rock'' \<in> set (fst (main example_config (Some ''Polka'') (\<lambda>g. ([], 0))))"
proof -
  have h: "genre_key example_config (Some ''Polka'') \<notin> fst ` set (cfg_genres example_config)"
    unfolding genre_key_example by (simp add: example_config_def)
  have g: "cfg_genres example_config =
        [(''hiphop'', \<lparr>genre_color = CHR 0x1B # ''[93m'', genre_speed = 12 / 1000,
                       genre_effect = ''shake'', genre_description = ''Hip Hop''\<rparr>),
         (''rock'', \<lparr>genre_color = CHR 0x1B # ''[31m'', genre_speed = 13 / 1000,
                     genre_effect = ''heavy_shake'', genre_description = ''Rock''\<rparr>)]"
    by (simp add: example_config_def)
  from C9_unknown_genre [OF h, of "\<lambda>g. ([], 0)"] h
  show ?thesis unfolding g by (auto simp: fmt_20s_def eval_nat_numeral)
qed

end
